theory Spec2Isabelle
  imports Main
begin

section \<open>Syntax\<close>

text \<open>
  The expression and statement languages of the soundness development.  The constructors
  are the ones the rules of EvalRules.v match on (\<open>Num\<close>, \<open>Var\<close>, \<open>ParenExpr\<close>,
  \<open>UnExpr\<close>, \<open>BinExpr\<close>, \<open>Assign\<close>, \<open>CallOrInvocation\<close>; \<open>Skip\<close>, \<open>Expr\<close>,
  \<open>IfElse\<close>, \<open>While\<close>, \<open>Compound\<close>).  Syntax.v, which declares the unary and binary
  operators and their meaning (\<open>unop_to_op\<close>, \<open>binop_to_op\<close>), is not among the sources:
  the operator types are the type parameters \<open>'u\<close> and \<open>'b\<close>, and the two meaning
  functions are parameters of evaluation.  Values are Coq's \<open>Z\<close>, here \<open>int\<close>;
  identifiers are strings; L-values are natural numbers.
\<close>

datatype ('u, 'b) expr =
    Num int
  | Var string
  | ParenExpr "('u, 'b) expr"
  | UnExpr 'u "('u, 'b) expr"
  | BinExpr 'b "('u, 'b) expr" "('u, 'b) expr"
  | Assign string "('u, 'b) expr"
  | CallOrInvocation string "('u, 'b) expr list"

datatype ('u, 'b) stmt =
    Skip
  | Expr "('u, 'b) expr"
  | IfElse "('u, 'b) expr" "('u, 'b) stmt" "('u, 'b) stmt"
  | While "('u, 'b) expr" "('u, 'b) stmt"
  | Compound "('u, 'b) stmt list"

text \<open>
  Stores map L-values to values, environments map names to L-values; a function
  definition is (parameters, body statement, return expression), a macro definition is
  (parameters, body expression).  The Coq development uses finite maps compared with
  \<open>NatMap.Equal\<close> and \<open>StringMap.Equal\<close> (the same lookups at every key); here maps are
  HOL's partial functions, for which that relation is equality.  So a premise
  \<open>NatMap.Equal S S'\<close> of a rule is written by using one name for both stores.
  \<open>MapsTo k v m\<close> is \<open>m k = Some v\<close>, \<open>In k m\<close> is \<open>k \<in> dom m\<close>, \<open>add k v m\<close> is
  \<open>m(k \<mapsto> v)\<close>, \<open>remove k m\<close> is \<open>m(k := None)\<close>, \<open>update m1 m2\<close> (the bindings of
  \<open>m2\<close> added over \<open>m1\<close>) is \<open>m1 ++ m2\<close>, \<open>restrict m1 m2\<close> (the bindings of \<open>m1\<close>
  whose key is bound in \<open>m2\<close>) is \<open>m1 |` dom m2\<close>, \<open>Disjoint m1 m2\<close> is
  \<open>dom m1 \<inter> dom m2 = {}\<close>, and \<open>of_list\<close> is \<open>map_of\<close> (in both the first binding of a
  key wins).
\<close>

type_synonym store = "nat \<rightharpoonup> int"
type_synonym environment = "string \<rightharpoonup> nat"
type_synonym ('u, 'b) function_definition = "string list \<times> ('u, 'b) stmt \<times> ('u, 'b) expr"
type_synonym ('u, 'b) function_table = "string \<rightharpoonup> ('u, 'b) function_definition"
type_synonym ('u, 'b) macro_definition = "string list \<times> ('u, 'b) expr"
type_synonym ('u, 'b) macro_table = "string \<rightharpoonup> ('u, 'b) macro_definition"

section \<open>Macro substitution (EvalRules.v)\<close>

text \<open>Substitution of one argument for one parameter, and its lifting to argument lists.\<close>

inductive
  MSub :: "string \<Rightarrow> ('u, 'b) expr \<Rightarrow> ('u, 'b) expr \<Rightarrow> ('u, 'b) expr \<Rightarrow> bool"
and
  MSubList :: "string \<Rightarrow> ('u, 'b) expr \<Rightarrow> ('u, 'b) expr list \<Rightarrow> ('u, 'b) expr list \<Rightarrow> bool"
where
  MS_Num: "MSub p e (Num z) (Num z)"
| MS_Var_Replace: "p = x \<Longrightarrow> MSub p e (Var x) e"
| MS_Var_No_Replace: "p \<noteq> x \<Longrightarrow> MSub p e (Var x) (Var x)"
| MS_PareExpr: "MSub p e e0 e0' \<Longrightarrow> MSub p e (ParenExpr e0) (ParenExpr e0')"
| MS_UnExpr: "MSub p e e0 e0' \<Longrightarrow> MSub p e (UnExpr uo e0) (UnExpr uo e0')"
| MS_BinExpr:
    "MSub p e e1 e1' \<Longrightarrow> MSub p e e2 e2' \<Longrightarrow>
     MSub p e (BinExpr bo e1 e2) (BinExpr bo e1' e2')"
| MS_Assign_Replace:
    "p = x \<Longrightarrow> e = Var y \<Longrightarrow> MSub p e e0 e0' \<Longrightarrow> MSub p e (Assign x e0) (Assign y e0')"
| MS_Assign_No_Replace:
    "p \<noteq> x \<Longrightarrow> MSub p e e0 e0' \<Longrightarrow> MSub p e (Assign x e0) (Assign x e0')"
| MS_Call_Or_Invocation:
    "MSubList p e es es' \<Longrightarrow> MSub p e (CallOrInvocation x es) (CallOrInvocation x es')"
| MSL_nil: "MSubList p e [] []"
| MSL_cons:
    "MSub p e e0 e0' \<Longrightarrow> MSubList p e es0 es0' \<Longrightarrow> MSubList p e (e0 # es0) (e0' # es0')"

inductive
  MacroSubst :: "string list \<Rightarrow> ('u, 'b) expr list \<Rightarrow> ('u, 'b) expr \<Rightarrow> ('u, 'b) expr \<Rightarrow> bool"
where
  MacroSubst_nil: "MacroSubst [] [] mexpr mexpr"
| MacroSubst_cons:
    "MSub p e mexpr ef \<Longrightarrow> MacroSubst ps es ef ef' \<Longrightarrow> MacroSubst (p # ps) (e # es) mexpr ef'"

section \<open>Big-step evaluation (EvalRules.v)\<close>

text \<open>
  \<open>EvalExpr S E G F M e v S'\<close>: under store \<open>S\<close>, local environment \<open>E\<close>, global
  environment \<open>G\<close>, function table \<open>F\<close> and macro table \<open>M\<close>, expression \<open>e\<close> terminates
  with value \<open>v\<close> and store \<open>S'\<close>.  A term that fails to evaluate is stuck: the relation
  does not hold.  \<open>EvalExprList\<close> evaluates the arguments of a call and builds the callee's
  environment \<open>Ef\<close> and argument store \<open>Sargs\<close>; its last two results are the L-value
  handed out and the list of L-values.  The rules are the source's, premise by premise;
  the two leading arguments are the operators' meaning.
\<close>

inductive
  EvalExpr :: "('u \<Rightarrow> int \<Rightarrow> int) \<Rightarrow> ('b \<Rightarrow> int \<Rightarrow> int \<Rightarrow> int) \<Rightarrow>
    store \<Rightarrow> environment \<Rightarrow> environment \<Rightarrow>
    ('u, 'b) function_table \<Rightarrow> ('u, 'b) macro_table \<Rightarrow>
    ('u, 'b) expr \<Rightarrow> int \<Rightarrow> store \<Rightarrow> bool"
and
  EvalExprList :: "('u \<Rightarrow> int \<Rightarrow> int) \<Rightarrow> ('b \<Rightarrow> int \<Rightarrow> int \<Rightarrow> int) \<Rightarrow>
    store \<Rightarrow> environment \<Rightarrow> environment \<Rightarrow>
    ('u, 'b) function_table \<Rightarrow> ('u, 'b) macro_table \<Rightarrow>
    string list \<Rightarrow> ('u, 'b) expr list \<Rightarrow> int list \<Rightarrow> store \<Rightarrow> environment \<Rightarrow> store \<Rightarrow>
    nat \<Rightarrow> nat list \<Rightarrow> bool"
and
  EvalStmt :: "('u \<Rightarrow> int \<Rightarrow> int) \<Rightarrow> ('b \<Rightarrow> int \<Rightarrow> int \<Rightarrow> int) \<Rightarrow>
    store \<Rightarrow> environment \<Rightarrow> environment \<Rightarrow>
    ('u, 'b) function_table \<Rightarrow> ('u, 'b) macro_table \<Rightarrow>
    ('u, 'b) stmt \<Rightarrow> store \<Rightarrow> bool"
for unop_to_op :: "'u \<Rightarrow> int \<Rightarrow> int" and binop_to_op :: "'b \<Rightarrow> int \<Rightarrow> int \<Rightarrow> int"
where
  E_Num: "EvalExpr unop_to_op binop_to_op S E G F M (Num z) z S"
| E_LocalVar:
    "E x = Some l \<Longrightarrow> S l = Some v \<Longrightarrow>
     EvalExpr unop_to_op binop_to_op S E G F M (Var x) v S"
| E_GlobalVar:
    "x \<notin> dom E \<Longrightarrow> G x = Some l \<Longrightarrow> S l = Some v \<Longrightarrow>
     EvalExpr unop_to_op binop_to_op S E G F M (Var x) v S"
| E_ParenExpr:
    "EvalExpr unop_to_op binop_to_op S E G F M e0 v S' \<Longrightarrow>
     EvalExpr unop_to_op binop_to_op S E G F M (ParenExpr e0) v S'"
| E_UnExpr:
    "EvalExpr unop_to_op binop_to_op S E G F M e0 v S' \<Longrightarrow>
     EvalExpr unop_to_op binop_to_op S E G F M (UnExpr uo e0) (unop_to_op uo v) S'"
| E_BinExpr:
    "EvalExpr unop_to_op binop_to_op S E G F M e1 v1 S' \<Longrightarrow>
     EvalExpr unop_to_op binop_to_op S' E G F M e2 v2 S'' \<Longrightarrow>
     EvalExpr unop_to_op binop_to_op S E G F M (BinExpr bo e1 e2) (binop_to_op bo v1 v2) S''"
| E_Assign_Local:
    "E x = Some l \<Longrightarrow>
     EvalExpr unop_to_op binop_to_op S E G F M e0 v S' \<Longrightarrow>
     EvalExpr unop_to_op binop_to_op S E G F M (Assign x e0) v (S ++ [l \<mapsto> v])"
| E_Assign_Global:
    "x \<notin> dom E \<Longrightarrow> G x = Some l \<Longrightarrow>
     EvalExpr unop_to_op binop_to_op S E G F M e0 v S' \<Longrightarrow>
     EvalExpr unop_to_op binop_to_op S E G F M (Assign x e0) v (S ++ [l \<mapsto> v])"
| E_FunctionCall:
    "x \<notin> dom M \<Longrightarrow>
     F x = Some (params, fstmt, fexpr) \<Longrightarrow>
     distinct params \<Longrightarrow>
     EvalExprList unop_to_op binop_to_op S E G F M params es vs S' Ef Sargs l ls \<Longrightarrow>
     Ef = map_of (zip params ls) \<Longrightarrow>
     Sargs = map_of (zip ls vs) \<Longrightarrow>
     dom S' \<inter> dom Sargs = {} \<Longrightarrow>
     EvalStmt unop_to_op binop_to_op (S' ++ Sargs) Ef G F M fstmt S''' \<Longrightarrow>
     EvalExpr unop_to_op binop_to_op S''' Ef G F M fexpr v S'''' \<Longrightarrow>
     EvalExpr unop_to_op binop_to_op S E G F M (CallOrInvocation x es) v (S'''' |` dom S)"
| E_MacroInvocation:
    "M x = Some (params, mexpr) \<Longrightarrow>
     M' = M(x := None) \<Longrightarrow>
     distinct params \<Longrightarrow>
     MacroSubst params es mexpr ef \<Longrightarrow>
     EvalExpr unop_to_op binop_to_op S E G F M' ef v S' \<Longrightarrow>
     EvalExpr unop_to_op binop_to_op S E G F M (CallOrInvocation x es) v S'"
| E_ExprList_nil:
    "EvalExprList unop_to_op binop_to_op Sprev Ecaller G F M [] [] [] Sprev
       Map.empty Map.empty 1 [0]"
| E_ExprList_cons:
    "EvalExpr unop_to_op binop_to_op Sprev Ecaller G F M e v Snext \<Longrightarrow>
     EvalExprList unop_to_op binop_to_op Snext Ecaller G F M ps es vs Sfinal Ef' Sargs' l ls \<Longrightarrow>
     l \<notin> dom Sargs' \<Longrightarrow>
     distinct (p # ps) \<Longrightarrow>
     p \<notin> dom Ef' \<Longrightarrow>
     EvalExprList unop_to_op binop_to_op Sprev Ecaller G F M (p # ps) (e # es) (v # vs) Sfinal
       (Ef'(p \<mapsto> l)) (Sargs'(l \<mapsto> v)) l (l # ls)"
| E_Skip: "EvalStmt unop_to_op binop_to_op S E G F M Skip S"
| E_Expr:
    "EvalExpr unop_to_op binop_to_op S E G F M e0 v S' \<Longrightarrow>
     EvalStmt unop_to_op binop_to_op S E G F M (Expr e0) S'"
| E_IfElseFalse:
    "EvalExpr unop_to_op binop_to_op S E G F M cond v S' \<Longrightarrow>
     v = 0 \<Longrightarrow>
     EvalStmt unop_to_op binop_to_op S' E G F M s2 S'' \<Longrightarrow>
     EvalStmt unop_to_op binop_to_op S E G F M (IfElse cond s1 s2) S''"
| E_IfElseTrue:
    "EvalExpr unop_to_op binop_to_op S E G F M cond v S' \<Longrightarrow>
     v \<noteq> 0 \<Longrightarrow>
     EvalStmt unop_to_op binop_to_op S' E G F M s1 S'' \<Longrightarrow>
     EvalStmt unop_to_op binop_to_op S E G F M (IfElse cond s1 s2) S''"
| E_WhileFalse:
    "EvalExpr unop_to_op binop_to_op S E G F M cond v S' \<Longrightarrow>
     v = 0 \<Longrightarrow>
     EvalStmt unop_to_op binop_to_op S E G F M (While cond s0) S'"
| E_WhileTrue:
    "EvalExpr unop_to_op binop_to_op S E G F M cond v S' \<Longrightarrow>
     v \<noteq> 0 \<Longrightarrow>
     EvalStmt unop_to_op binop_to_op S' E G F M s0 S'' \<Longrightarrow>
     EvalStmt unop_to_op binop_to_op S'' E G F M (While cond s0) S''' \<Longrightarrow>
     EvalStmt unop_to_op binop_to_op S E G F M (While cond s0) S'''"
| E_CompoundStmt_nil: "EvalStmt unop_to_op binop_to_op S E G F M (Compound []) S"
| E_CompoundStmt_cons:
    "EvalStmt unop_to_op binop_to_op S E G F M s S' \<Longrightarrow>
     EvalStmt unop_to_op binop_to_op S' E G F M (Compound ss) S'' \<Longrightarrow>
     EvalStmt unop_to_op binop_to_op S E G F M (Compound (s # ss)) S''"

section \<open>The static analyzers\<close>

subsection \<open>Side-effect analyzer\<close>

text \<open>
  Modelled from the spec: SideEffects.v, which defines the analyzer, is not among the
  sources.  The spec (Side-Effect Analyzer) gives it by cases: \<open>Num\<close> and \<open>Var\<close> false;
  \<open>Paren\<close> and \<open>Unary\<close> recurse; \<open>Binary\<close> true if either operand has side effects;
  \<open>Assign\<close> always true; \<open>Invocation(name, args)\<close> true if any argument has side
  effects or if the name resolves to a definition that is flagged, a name that is not
  resolved counting as having side effects.

  Theorems.v shows how the source's analyzer treats an invocation.  It is applied to the
  expression alone (\<open>~ ExprHasSideEffects mexpr\<close>): no function table and no macro table
  is passed in which a name could be resolved.  From its negation Theorems.v derives that
  the expression invokes no macro, under whatever macro table
  (\<open>not_ExprHasSideEffects_ExprNoMacroInvocations\<close>), and calls no function
  (\<open>not_ExprHasSideEffects_ExprNoCallsFromFunctionTable\<close>), and the inductions over an
  evaluation close the assignment, call and invocation cases by contradiction with it
  (\<open>simpl in H; contradiction\<close>).  So no name is resolved and every invocation is
  flagged.
\<close>

fun ExprHasSideEffects :: "('u, 'b) expr \<Rightarrow> bool" where
  "ExprHasSideEffects (Num z) = False"
| "ExprHasSideEffects (Var x) = False"
| "ExprHasSideEffects (ParenExpr e0) = ExprHasSideEffects e0"
| "ExprHasSideEffects (UnExpr uo e0) = ExprHasSideEffects e0"
| "ExprHasSideEffects (BinExpr bo e1 e2) = (ExprHasSideEffects e1 \<or> ExprHasSideEffects e2)"
| "ExprHasSideEffects (Assign x e0) = True"
| "ExprHasSideEffects (CallOrInvocation x es) = True"

text \<open>An expression contains an \<open>Assign\<close> node (anywhere, argument lists included).\<close>

fun ContainsAssign :: "('u, 'b) expr \<Rightarrow> bool" where
  "ContainsAssign (Num z) = False"
| "ContainsAssign (Var x) = False"
| "ContainsAssign (ParenExpr e0) = ContainsAssign e0"
| "ContainsAssign (UnExpr uo e0) = ContainsAssign e0"
| "ContainsAssign (BinExpr bo e1 e2) = (ContainsAssign e1 \<or> ContainsAssign e2)"
| "ContainsAssign (Assign x e0) = True"
| "ContainsAssign (CallOrInvocation x es) = list_ex ContainsAssign es"

subsection \<open>Scope analyzer\<close>

text \<open>
  Modelled from the spec: NoVarsInEnvironment.v is not among the sources.  The spec
  (Scope/Hygiene Analyzer): true iff no \<open>Var\<close> node inside the expression names an
  identifier bound in the local part of the caller's environment; compositional over
  \<open>Paren\<close>, \<open>Unary\<close>, \<open>Binary\<close>, \<open>Assign\<close> and \<open>Invocation\<close> (all subexpressions and
  argument lists); \<open>Var\<close> is the only node that can falsify it.
\<close>

fun ExprNoVarsInEnvironment :: "('u, 'b) expr \<Rightarrow> environment \<Rightarrow> bool" where
  "ExprNoVarsInEnvironment (Num z) E = True"
| "ExprNoVarsInEnvironment (Var x) E = (x \<notin> dom E)"
| "ExprNoVarsInEnvironment (ParenExpr e0) E = ExprNoVarsInEnvironment e0 E"
| "ExprNoVarsInEnvironment (UnExpr uo e0) E = ExprNoVarsInEnvironment e0 E"
| "ExprNoVarsInEnvironment (BinExpr bo e1 e2) E =
     (ExprNoVarsInEnvironment e1 E \<and> ExprNoVarsInEnvironment e2 E)"
| "ExprNoVarsInEnvironment (Assign x e0) E = ExprNoVarsInEnvironment e0 E"
| "ExprNoVarsInEnvironment (CallOrInvocation x es) E =
     list_all (\<lambda>e. ExprNoVarsInEnvironment e E) es"

subsection \<open>Nested-invocation analyzer\<close>

text \<open>
  Modelled from the spec: NoMacroInvocations.v is not among the sources.  The spec
  (Nested-Invocation Analyzer): true iff no \<open>Invocation\<close> node inside the expression (or
  its arguments, recursively) resolves to an entry in the macro table; an invocation that
  resolves only to the function table does not falsify it.
\<close>

fun ExprNoMacroInvocations ::
  "('u, 'b) expr \<Rightarrow> ('u, 'b) function_table \<Rightarrow> ('u, 'b) macro_table \<Rightarrow> bool"
where
  "ExprNoMacroInvocations (Num z) F M = True"
| "ExprNoMacroInvocations (Var x) F M = True"
| "ExprNoMacroInvocations (ParenExpr e0) F M = ExprNoMacroInvocations e0 F M"
| "ExprNoMacroInvocations (UnExpr uo e0) F M = ExprNoMacroInvocations e0 F M"
| "ExprNoMacroInvocations (BinExpr bo e1 e2) F M =
     (ExprNoMacroInvocations e1 F M \<and> ExprNoMacroInvocations e2 F M)"
| "ExprNoMacroInvocations (Assign x e0) F M = ExprNoMacroInvocations e0 F M"
| "ExprNoMacroInvocations (CallOrInvocation x es) F M =
     (x \<notin> dom M \<and> list_all (\<lambda>e. ExprNoMacroInvocations e F M) es)"

section \<open>The transformation of a macro invocation site\<close>

text \<open>
  Modelled from the spec: Transformations.v, which defines the transformation relation
  \<open>TransformExpr\<close>, and the transformer are not among the sources.  The spec
  (Transformability Decision Procedure) judges one invocation from its arguments, the
  macro's definition and the caller's environment, by conditions checked in order: the
  argument count equals the parameter count; the parameter names have no duplicates; the
  body has no macro invocations; the body names no variable of the caller's local
  environment; for a function-like macro each argument has no side effects and no macro
  invocations; the body has no side effects.  An object-like macro is one with an empty
  parameter list.

  Where the soundness proof in Theorems.v shows the rules of \<open>TransformExpr\<close>, the model
  follows them.  The proof has three cases for a macro invocation: a \<^emph>\<open>macro that is not
  transformable\<close>, left as it is; a \<^emph>\<open>function-like macro with one argument that does not
  have side-effects and a body that is a variable which is not from the caller's
  environment\<close>; and an \<^emph>\<open>object like macro without side-effects, shared variables with
  the caller environment, or nested macro invocations\<close>.  So the scope condition holds
  for both kinds of macro, and a function-like macro is transformed only when it has one
  parameter and its body is a variable.  The verdict carries the strategy; the reasons
  of a rejection and the structural key that serves the deduplication are not modelled.
\<close>

datatype strategy = ObjectLikeToNullaryFunction | FunctionLikeToFunction

datatype verdict = Transformable strategy | NotTransformable

fun isBareVar :: "('u, 'b) expr \<Rightarrow> bool" where
  "isBareVar (Var x) = True"
| "isBareVar (Num z) = False"
| "isBareVar (ParenExpr e0) = False"
| "isBareVar (UnExpr uo e0) = False"
| "isBareVar (BinExpr bo e1 e2) = False"
| "isBareVar (Assign x e0) = False"
| "isBareVar (CallOrInvocation x es) = False"

definition Decide ::
  "('u, 'b) function_table \<Rightarrow> ('u, 'b) macro_table \<Rightarrow> environment \<Rightarrow>
   ('u, 'b) macro_definition \<Rightarrow> ('u, 'b) expr list \<Rightarrow> verdict"
where
  "Decide F M callerEnv md args =
     (case md of (params, body) \<Rightarrow>
        if length args \<noteq> length params then NotTransformable
        else if \<not> distinct params then NotTransformable
        else if \<not> ExprNoMacroInvocations body F M then NotTransformable
        else if \<not> ExprNoVarsInEnvironment body callerEnv then NotTransformable
        else if params = [] then
          (if ExprHasSideEffects body then NotTransformable
           else Transformable ObjectLikeToNullaryFunction)
        else if length params = 1 \<and> isBareVar body \<and>
            \<not> list_ex (\<lambda>a. ExprHasSideEffects a \<or> \<not> ExprNoMacroInvocations a F M) args
          then Transformable FunctionLikeToFunction
        else NotTransformable)"

text \<open>
  Modelled from the spec (Code Generator): an object-like macro becomes a function with
  no parameters, body \<open>Skip\<close> and the macro body as return expression; a function-like
  macro becomes a function with the macro's parameter list, body \<open>Skip\<close> and the macro
  body, not substituted, as return expression (\<open>newdef\<close> in Theorems.v: \<open>(nil, Skip,
  mexpr)\<close> and \<open>((p::nil), Skip, (Var y))\<close>).  The call site \<open>Invocation(macroName, args)\<close>
  is rewritten into \<open>Invocation(generatedName, args)\<close> and the definition is inserted into
  the function table under the generated name \<open>fname\<close>, which the generator allocates
  fresh; a site that is not transformable is left as it is.  An invocation of a name that
  the macro table does not bind violates the input contract (\<open>None\<close>).
\<close>

fun GenerateDefinition ::
  "strategy \<Rightarrow> ('u, 'b) macro_definition \<Rightarrow> ('u, 'b) function_definition"
where
  "GenerateDefinition ObjectLikeToNullaryFunction (params, body) = ([], Skip, body)"
| "GenerateDefinition FunctionLikeToFunction (params, body) = (params, Skip, body)"

definition TransformSite ::
  "('u, 'b) function_table \<Rightarrow> ('u, 'b) macro_table \<Rightarrow> environment \<Rightarrow>
   string \<Rightarrow> string \<Rightarrow> ('u, 'b) expr list \<Rightarrow>
   (('u, 'b) function_table \<times> ('u, 'b) expr) option"
where
  "TransformSite F M callerEnv fname x args =
     (case M x of
        None \<Rightarrow> None
      | Some md \<Rightarrow>
          (case Decide F M callerEnv md args of
             Transformable st \<Rightarrow>
               Some (F(fname \<mapsto> GenerateDefinition st md), CallOrInvocation fname args)
           | NotTransformable \<Rightarrow> Some (F, CallOrInvocation x args)))"

section \<open>Operators used in the examples\<close>

text \<open>
  The examples below instantiate both operator types with \<open>unit\<close>: the unary operator
  is negation and the binary operator is addition.
\<close>

definition neg_op :: "unit \<Rightarrow> int \<Rightarrow> int" where
  "neg_op u v = - v"

definition plus_op :: "unit \<Rightarrow> int \<Rightarrow> int \<Rightarrow> int" where
  "plus_op b v w = v + w"

section \<open>Rule inversion\<close>

inductive_cases Num_E: "EvalExpr uop bop S E G F M (Num z) v S'"
inductive_cases Var_E: "EvalExpr uop bop S E G F M (Var x) v S'"
inductive_cases ParenExpr_E: "EvalExpr uop bop S E G F M (ParenExpr e) v S'"
inductive_cases UnExpr_E: "EvalExpr uop bop S E G F M (UnExpr uo e) v S'"
inductive_cases BinExpr_E: "EvalExpr uop bop S E G F M (BinExpr bo e1 e2) v S'"
inductive_cases Assign_E: "EvalExpr uop bop S E G F M (Assign x e) v S'"
inductive_cases CallOrInvocation_E: "EvalExpr uop bop S E G F M (CallOrInvocation x es) v S'"
inductive_cases ExprList_nil_E: "EvalExprList uop bop S E G F M ps [] vs S' Ef Sargs l ls"
inductive_cases ExprList_cons_E: "EvalExprList uop bop S E G F M ps (e # es) vs S' Ef Sargs l ls"
inductive_cases Skip_E: "EvalStmt uop bop S E G F M Skip S'"
inductive_cases Expr_E: "EvalStmt uop bop S E G F M (Expr e) S'"
inductive_cases IfElse_E: "EvalStmt uop bop S E G F M (IfElse c s1 s2) S'"
inductive_cases While_E: "EvalStmt uop bop S E G F M (While c s) S'"
inductive_cases Compound_nil_E: "EvalStmt uop bop S E G F M (Compound []) S'"
inductive_cases Compound_cons_E: "EvalStmt uop bop S E G F M (Compound (s # ss)) S'"

lemma Eval_Disjoint_update_F:
  "EvalExpr uop bop S E G F M e v S' \<Longrightarrow> dom F \<inter> dom F' = {} \<Longrightarrow>
     EvalExpr uop bop S E G (F ++ F') M e v S'"
  "EvalExprList uop bop S E G F M ps es vs S1 Ef Sargs l ls \<Longrightarrow> dom F \<inter> dom F' = {} \<Longrightarrow>
     EvalExprList uop bop S E G (F ++ F') M ps es vs S1 Ef Sargs l ls"
  "EvalStmt uop bop S E G F M s S2 \<Longrightarrow> dom F \<inter> dom F' = {} \<Longrightarrow>
     EvalStmt uop bop S E G (F ++ F') M s S2"
proof (induction rule: EvalExpr_EvalExprList_EvalStmt.inducts)
  case (E_FunctionCall x M F params fstmt fexpr S E G es vs S1 Ef Sargs l ls S3 v S4)
  have "F' x = None" using E_FunctionCall.hyps(2) E_FunctionCall.prems by auto
  then have fx: "(F ++ F') x = Some (params, fstmt, fexpr)"
    using E_FunctionCall.hyps(2) by (simp add: map_add_Some_iff)
  show ?case
    using E_FunctionCall.hyps E_FunctionCall.IH E_FunctionCall.prems fx
    by (intro EvalExpr_EvalExprList_EvalStmt.E_FunctionCall
          [where params=params and fstmt=fstmt and fexpr=fexpr and ls=ls and vs=vs and l=l]) blast+
qed (blast intro: EvalExpr_EvalExprList_EvalStmt.intros)+

lemma Eval_notin_F_add:
  "EvalExpr uop bop S E G F M e v S' \<Longrightarrow> x \<notin> dom F \<Longrightarrow>
     EvalExpr uop bop S E G (F(x \<mapsto> fdef)) M e v S'"
  using Eval_Disjoint_update_F(1)[of uop bop S E G F M e v S' "[x \<mapsto> fdef]"] by simp

inductive_cases MSub_Num_E: "MSub p e (Num z) ef"
inductive_cases MSub_Var_E: "MSub p e (Var x) ef"
inductive_cases MSub_ParenExpr_E: "MSub p e (ParenExpr e0) ef"
inductive_cases MSub_UnExpr_E: "MSub p e (UnExpr uo e0) ef"
inductive_cases MSub_BinExpr_E: "MSub p e (BinExpr bo e1 e2) ef"
inductive_cases MSub_Assign_E: "MSub p e (Assign x e0) ef"
inductive_cases MSub_CallOrInvocation_E: "MSub p e (CallOrInvocation x es) ef"
inductive_cases MSubList_nil_E: "MSubList p e [] es'"
inductive_cases MSubList_cons_E: "MSubList p e (e0 # es0) es'"
inductive_cases MacroSubst_nil_E: "MacroSubst [] es mexpr ef"
inductive_cases MacroSubst_cons_E: "MacroSubst (p # ps) es mexpr ef"

lemma MSub_deterministic:
  "MSub p e mexpr ef \<Longrightarrow> MSub p e mexpr ef0 \<Longrightarrow> ef = ef0"
  "MSubList p e es es' \<Longrightarrow> MSubList p e es es0 \<Longrightarrow> es' = es0"
proof (induction arbitrary: ef0 and es0 rule: MSub_MSubList.inducts)
  case (MS_Num p e z)
  from MS_Num.prems show ?case by (rule MSub_Num_E) simp
next
  case (MS_Var_Replace p x e)
  from MS_Var_Replace.prems show ?case
    by (rule MSub_Var_E) (use MS_Var_Replace.hyps in simp_all)
next
  case (MS_Var_No_Replace p x e)
  from MS_Var_No_Replace.prems show ?case
    by (rule MSub_Var_E) (use MS_Var_No_Replace.hyps in simp_all)
next
  case (MS_PareExpr p e e0 e0')
  from MS_PareExpr.prems show ?case
    by (rule MSub_ParenExpr_E) (simp add: MS_PareExpr.IH)
next
  case (MS_UnExpr p e e0 e0' uo)
  from MS_UnExpr.prems show ?case
    by (rule MSub_UnExpr_E) (simp add: MS_UnExpr.IH)
next
  case (MS_BinExpr p e e1 e1' e2 e2' bo)
  from MS_BinExpr.prems show ?case
    by (rule MSub_BinExpr_E) (simp add: MS_BinExpr.IH)
next
  case (MS_Assign_Replace p x e y e0 e0')
  from MS_Assign_Replace.prems show ?case
    by (rule MSub_Assign_E) (use MS_Assign_Replace.hyps in \<open>simp_all add: MS_Assign_Replace.IH\<close>)
next
  case (MS_Assign_No_Replace p x e e0 e0')
  from MS_Assign_No_Replace.prems show ?case
    by (rule MSub_Assign_E) (use MS_Assign_No_Replace.hyps in \<open>simp_all add: MS_Assign_No_Replace.IH\<close>)
next
  case (MS_Call_Or_Invocation p e es es' x)
  from MS_Call_Or_Invocation.prems show ?case
    by (rule MSub_CallOrInvocation_E) (simp add: MS_Call_Or_Invocation.IH)
next
  case (MSL_nil p e)
  from MSL_nil.prems show ?case by (rule MSubList_nil_E) simp
next
  case (MSL_cons p e e0 e0' es0 es0')
  from MSL_cons.prems show ?case
    by (rule MSubList_cons_E) (simp add: MSL_cons.IH)
qed

lemma MacroSubst_deterministic:
  "MacroSubst params es mexpr ef \<Longrightarrow> MacroSubst params es mexpr ef0 \<Longrightarrow> ef = ef0"
proof (induction arbitrary: ef0 rule: MacroSubst.induct)
  case (MacroSubst_nil mexpr)
  from MacroSubst_nil.prems show ?case by (rule MacroSubst_nil_E) simp
next
  case (MacroSubst_cons p e mexpr ef ps es ef')
  from MacroSubst_cons.prems obtain ef1 where
    a: "MSub p e mexpr ef1" and b: "MacroSubst ps es ef1 ef0"
    by (rule MacroSubst_cons_E) auto
  have "ef1 = ef" using MSub_deterministic(1)[OF MacroSubst_cons.hyps(1) a] by simp
  with b show ?case using MacroSubst_cons.IH by simp
qed

section \<open>Determinism of evaluation\<close>

lemma Eval_deterministic:
  "EvalExpr uop bop S E G F M e v1 S1 \<Longrightarrow> EvalExpr uop bop S E G F M e v2 S2 \<Longrightarrow>
     v1 = v2 \<and> S1 = S2"
  "EvalExprList uop bop S E G F M ps es vs1 Sn1 Ef1 Sargs1 l1 ls1 \<Longrightarrow>
     EvalExprList uop bop S E G F M ps es vs2 Sn2 Ef2 Sargs2 l2 ls2 \<Longrightarrow>
     vs1 = vs2 \<and> Sn1 = Sn2 \<and> Ef1 = Ef2 \<and> Sargs1 = Sargs2 \<and> l1 = l2 \<and> ls1 = ls2"
  "EvalStmt uop bop S E G F M s T1 \<Longrightarrow> EvalStmt uop bop S E G F M s T2 \<Longrightarrow> T1 = T2"
proof (induction arbitrary: v2 S2 and vs2 Sn2 Ef2 Sargs2 l2 ls2 and T2
    rule: EvalExpr_EvalExprList_EvalStmt.inducts)
  case (E_Num S E G F M z)
  from E_Num.prems show ?case by (rule Num_E) simp
next
  case (E_LocalVar E x l S v G F M)
  from E_LocalVar.prems show ?case
    by (rule Var_E) (use E_LocalVar.hyps in auto)
next
  case (E_GlobalVar x E G l S v F M)
  from E_GlobalVar.prems show ?case
    by (rule Var_E) (use E_GlobalVar.hyps in auto)
next
  case (E_ParenExpr S E G F M e0 v S')
  from E_ParenExpr.prems show ?case
    by (rule ParenExpr_E) (use E_ParenExpr.IH in blast)
next
  case (E_UnExpr S E G F M e0 v S' uo)
  from E_UnExpr.prems show ?case
    by (rule UnExpr_E) (use E_UnExpr.IH in blast)
next
  case (E_BinExpr S E G F M e1 v1 S' e2 v2' S'' bo)
  from E_BinExpr.prems show ?case
  proof (rule BinExpr_E)
    fix w1 T w2
    assume a: "v2 = bop bo w1 w2" "EvalExpr uop bop S E G F M e1 w1 T"
      "EvalExpr uop bop T E G F M e2 w2 S2"
    from E_BinExpr.IH a(2) have "v1 = w1" "S' = T" by blast+
    with E_BinExpr.IH a(3) have "v2' = w2 \<and> S'' = S2" by blast
    with \<open>v1 = w1\<close> a(1) show ?thesis by simp
  qed
next
  case (E_Assign_Local E x l S G F M e0 v S')
  from E_Assign_Local.prems show ?case
  proof (rule Assign_E)
    fix l' T
    assume a: "S2 = S(l' \<mapsto> v2)" "E x = Some l'" "EvalExpr uop bop S E G F M e0 v2 T"
    from E_Assign_Local.IH a(3) have "v = v2" by blast
    with a(1,2) E_Assign_Local.hyps(1) show ?thesis by simp
  next
    fix l' T
    assume "x \<notin> dom E"
    with E_Assign_Local.hyps(1) show ?thesis by auto
  qed
next
  case (E_Assign_Global x E G l S F M e0 v S')
  from E_Assign_Global.prems show ?case
  proof (rule Assign_E)
    fix l' T
    assume "E x = Some l'"
    with E_Assign_Global.hyps(1) show ?thesis by auto
  next
    fix l' T
    assume a: "S2 = S(l' \<mapsto> v2)" "G x = Some l'" "EvalExpr uop bop S E G F M e0 v2 T"
    from E_Assign_Global.IH a(3) have "v = v2" by blast
    with a(1,2) E_Assign_Global.hyps(2) show ?thesis by simp
  qed
next
  case (E_FunctionCall x M F params fstmt fexpr S E G es vs S1 Ef Sargs l ls S3 v S4)
  from E_FunctionCall.prems show ?case
  proof (rule CallOrInvocation_E)
    fix params' fstmt' fexpr' vs' T1 l' ls' T3 T4
    assume a: "S2 = T4 |` dom S" "F x = Some (params', fstmt', fexpr')"
      "EvalExprList uop bop S E G F M params' es vs' T1 (map_of (zip params' ls'))
         (map_of (zip ls' vs')) l' ls'"
      "EvalStmt uop bop (T1 ++ map_of (zip ls' vs')) (map_of (zip params' ls')) G F M fstmt' T3"
      "EvalExpr uop bop T3 (map_of (zip params' ls')) G F M fexpr' v2 T4"
    from a(2) E_FunctionCall.hyps(2) have eq: "params' = params" "fstmt' = fstmt" "fexpr' = fexpr"
      by simp_all
    from E_FunctionCall.IH a(3)[unfolded eq]
    have l: "vs = vs'" "S1 = T1" "Ef = map_of (zip params ls')" "Sargs = map_of (zip ls' vs')"
      "ls = ls'" by blast+
    from E_FunctionCall.IH a(4)[unfolded eq] l have "S3 = T3" by blast
    with E_FunctionCall.IH a(5)[unfolded eq] l have "v = v2 \<and> S4 = T4" by blast
    with a(1) show ?thesis by simp
  next
    fix params' mexpr ef
    assume "M x = Some (params', mexpr)"
    with E_FunctionCall.hyps(1) show ?thesis by auto
  qed
next
  case (E_MacroInvocation M x params mexpr M' es ef S E G F v S')
  from E_MacroInvocation.prems show ?case
  proof (rule CallOrInvocation_E)
    fix params' fstmt' fexpr' vs' T1 l' ls' T3 T4
    assume "x \<notin> dom M"
    with E_MacroInvocation.hyps(1) show ?thesis by auto
  next
    fix params' mexpr' ef'
    assume a: "M x = Some (params', mexpr')" "MacroSubst params' es mexpr' ef'"
      "EvalExpr uop bop S E G F (M(x := None)) ef' v2 S2"
    from a(1) E_MacroInvocation.hyps(1) have eq: "params' = params" "mexpr' = mexpr" by simp_all
    from MacroSubst_deterministic[OF E_MacroInvocation.hyps(4) a(2)[unfolded eq]]
    have "ef = ef'" .
    with E_MacroInvocation.IH a(3) E_MacroInvocation.hyps(2) show ?thesis by blast
  qed
next
  case (E_ExprList_nil Sprev Ecaller G F M)
  from E_ExprList_nil.prems show ?case by (rule ExprList_nil_E) simp
next
  case (E_ExprList_cons Sprev Ecaller G F M e v Snext ps es vs Sfinal Ef' Sargs' l ls p)
  from E_ExprList_cons.prems show ?case
  proof (rule ExprList_cons_E)
    fix w T qs ws Ef0 Sargs0 ks q
    assume a: "p # ps = q # qs" "vs2 = w # ws" "Ef2 = Ef0(q \<mapsto> l2)" "Sargs2 = Sargs0(l2 \<mapsto> w)"
      "ls2 = l2 # ks" "EvalExpr uop bop Sprev Ecaller G F M e w T"
      "EvalExprList uop bop T Ecaller G F M qs es ws Sn2 Ef0 Sargs0 l2 ks"
    from E_ExprList_cons.IH a(6) have h: "v = w" "Snext = T" by blast+
    from a(1) have pq: "q = p" "qs = ps" by simp_all
    from E_ExprList_cons.IH a(7)[unfolded pq] h
    have "vs = ws \<and> Sfinal = Sn2 \<and> Ef' = Ef0 \<and> Sargs' = Sargs0 \<and> l = l2 \<and> ls = ks"
      by blast
    with a h pq show ?thesis by simp
  qed
next
  case (E_Skip S E G F M)
  from E_Skip.prems show ?case by (rule Skip_E) simp
next
  case (E_Expr S E G F M e0 v S')
  from E_Expr.prems show ?case
    by (rule Expr_E) (use E_Expr.IH in blast)
next
  case (E_IfElseFalse S E G F M cond v S' s2 S'' s1)
  from E_IfElseFalse.prems show ?case
  proof (rule IfElse_E)
    fix T
    assume a: "EvalExpr uop bop S E G F M cond 0 T" "EvalStmt uop bop T E G F M s2 T2"
    from E_IfElseFalse.IH a(1) have "S' = T" by blast
    with E_IfElseFalse.IH a(2) show ?thesis by blast
  next
    fix w T
    assume a: "EvalExpr uop bop S E G F M cond w T" "w \<noteq> 0"
    from E_IfElseFalse.IH a(1) have "v = w" by blast
    with a(2) E_IfElseFalse.hyps show ?thesis by simp
  qed
next
  case (E_IfElseTrue S E G F M cond v S' s1 S'' s2)
  from E_IfElseTrue.prems show ?case
  proof (rule IfElse_E)
    fix T
    assume a: "EvalExpr uop bop S E G F M cond 0 T"
    from E_IfElseTrue.IH a(1) have "v = 0" by blast
    with E_IfElseTrue.hyps show ?thesis by simp
  next
    fix w T
    assume a: "EvalExpr uop bop S E G F M cond w T" "w \<noteq> 0" "EvalStmt uop bop T E G F M s1 T2"
    from E_IfElseTrue.IH a(1) have "S' = T" by blast
    with E_IfElseTrue.IH a(3) show ?thesis by blast
  qed
next
  case (E_WhileFalse S E G F M cond v S' s0)
  from E_WhileFalse.prems show ?case
  proof (rule While_E)
    assume a: "EvalExpr uop bop S E G F M cond 0 T2"
    from E_WhileFalse.IH a show ?thesis by blast
  next
    fix w T T'
    assume a: "EvalExpr uop bop S E G F M cond w T" "w \<noteq> 0"
    from E_WhileFalse.IH a(1) have "v = w" by blast
    with a(2) E_WhileFalse.hyps show ?thesis by simp
  qed
next
  case (E_WhileTrue S E G F M cond v S' s0 S'' S''')
  from E_WhileTrue.prems show ?case
  proof (rule While_E)
    assume "EvalExpr uop bop S E G F M cond 0 T2"
    with E_WhileTrue.IH have "v = 0" by blast
    with E_WhileTrue.hyps show ?thesis by simp
  next
    fix w T T'
    assume a: "EvalExpr uop bop S E G F M cond w T" "EvalStmt uop bop T E G F M s0 T'"
      "EvalStmt uop bop T' E G F M (While cond s0) T2"
    from E_WhileTrue.IH a(1) have "S' = T" by blast
    with E_WhileTrue.IH a(2) have "S'' = T'" by blast
    with E_WhileTrue.IH a(3) show ?thesis by blast
  qed
next
  case (E_CompoundStmt_nil S E G F M)
  from E_CompoundStmt_nil.prems show ?case by (rule Compound_nil_E) simp
next
  case (E_CompoundStmt_cons S E G F M s S' ss S'')
  from E_CompoundStmt_cons.prems show ?case
  proof (rule Compound_cons_E)
    fix T
    assume a: "EvalStmt uop bop S E G F M s T" "EvalStmt uop bop T E G F M (Compound ss) T2"
    from E_CompoundStmt_cons.IH a(1) have "S' = T" by blast
    with E_CompoundStmt_cons.IH a(2) show ?thesis by blast
  qed
qed

section \<open>Derived rules for calls\<close>

lemma restrict_dom_self: "S |` dom S = S"
  by (rule ext) (simp add: restrict_map_def domIff)

lemma restrict_add_disjoint: "dom S \<inter> dom A = {} \<Longrightarrow> (S ++ A) |` dom S = S"
  by (rule ext) (auto simp: restrict_map_def map_add_def domIff split: option.splits)

lemma E_FunctionCall_nullary:
  assumes "x \<notin> dom M" and "F x = Some ([], fstmt, fexpr)"
    and "EvalStmt uop bop S Map.empty G F M fstmt S3"
    and "EvalExpr uop bop S3 Map.empty G F M fexpr v S4"
  shows "EvalExpr uop bop S E G F M (CallOrInvocation x []) v (S4 |` dom S)"
proof -
  have l: "EvalExprList uop bop S E G F M [] [] [] S Map.empty Map.empty 1 [0]"
    by (rule E_ExprList_nil)
  show ?thesis
    by (rule E_FunctionCall[OF assms(1) assms(2) _ l]) (use assms(3,4) in simp_all)
qed

lemma E_FunctionCall_unary:
  assumes "x \<notin> dom M" and "F x = Some ([p], fstmt, fexpr)"
    and "EvalExpr uop bop S E G F M e va S1"
    and "1 \<notin> dom S1"
    and "EvalStmt uop bop (S1(1 \<mapsto> va)) [p \<mapsto> 1] G F M fstmt S3"
    and "EvalExpr uop bop S3 [p \<mapsto> 1] G F M fexpr v S4"
  shows "EvalExpr uop bop S E G F M (CallOrInvocation x [e]) v (S4 |` dom S)"
proof -
  have "EvalExprList uop bop S1 E G F M [] [] [] S1 Map.empty Map.empty 1 [0]"
    by (rule E_ExprList_nil)
  from E_ExprList_cons[OF assms(3) this, of p]
  have l: "EvalExprList uop bop S E G F M [p] [e] [va] S1 [p \<mapsto> 1] [1 \<mapsto> va] 1 [1, 0]"
    by simp
  show ?thesis
    by (rule E_FunctionCall[OF assms(1) assms(2) _ l]) (use assms(4,5,6) in simp_all)
qed

lemma E_MacroInvocation_object:
  assumes "M x = Some ([], mexpr)"
    and "EvalExpr uop bop S E G F (M(x := None)) mexpr v S'"
  shows "EvalExpr uop bop S E G F M (CallOrInvocation x []) v S'"
  by (rule E_MacroInvocation[OF assms(1) refl _ MacroSubst_nil assms(2)]) simp

lemma E_MacroInvocation_unary:
  assumes "M x = Some ([p], mexpr)" and "MSub p e mexpr ef"
    and "EvalExpr uop bop S E G F (M(x := None)) ef v S'"
  shows "EvalExpr uop bop S E G F M (CallOrInvocation x [e]) v S'"
  by (rule E_MacroInvocation[OF assms(1) refl _ MacroSubst_cons[OF assms(2) MacroSubst_nil] assms(3)])
    simp

section \<open>Extending the function table\<close>

text \<open>
  Claim C10.  If an expression terminates with value \<open>v\<close> and final store \<open>S'\<close> under the
  function table \<open>F\<close>, then it terminates with the same value and the same final store
  under \<open>F\<close> extended with a definition for any name \<open>x\<close> that \<open>F\<close> does not bind, and
  under \<open>F\<close> merged with any table \<open>F'\<close> whose names are disjoint from those of \<open>F\<close>
  (EvalExpr_notin_F_add_EvalExpr, EvalExpr_Disjoint_update_F_EvalExpr).
\<close>

theorem fresh_function_preserves_evaluation:
  assumes "EvalExpr uop bop S E G F M e v S'"
  shows "(x \<notin> dom F \<longrightarrow> EvalExpr uop bop S E G (F(x \<mapsto> fdef)) M e v S') \<and>
         (dom F \<inter> dom F' = {} \<longrightarrow> EvalExpr uop bop S E G (F ++ F') M e v S')"
proof (intro conjI impI)
  assume "x \<notin> dom F"
  with assms show "EvalExpr uop bop S E G (F(x \<mapsto> fdef)) M e v S'"
    by (rule Eval_notin_F_add)
next
  assume "dom F \<inter> dom F' = {}"
  with assms show "EvalExpr uop bop S E G (F ++ F') M e v S'"
    by (rule Eval_Disjoint_update_F(1))
qed

lemma ex_call_f:
  "EvalExpr neg_op plus_op Map.empty Map.empty Map.empty [''f'' \<mapsto> ([], Skip, Num 7)] Map.empty
     (CallOrInvocation ''f'' []) 7 Map.empty"
  using E_FunctionCall_nullary[of "''f''" Map.empty "[''f'' \<mapsto> ([], Skip, Num 7)]" Skip "Num 7"
      neg_op plus_op Map.empty Map.empty Map.empty 7 Map.empty Map.empty, OF _ _ E_Skip E_Num]
  by simp

theorem fresh_function_preserves_evaluation_witness:
  "EvalExpr neg_op plus_op Map.empty Map.empty Map.empty
     [''f'' \<mapsto> ([], Skip, Num 7), ''g'' \<mapsto> ([], Skip, Num 8)] Map.empty
     (CallOrInvocation ''f'' []) 7 Map.empty \<and>
   EvalExpr neg_op plus_op Map.empty Map.empty Map.empty
     ([''f'' \<mapsto> ([], Skip, Num 7)] ++ [''g'' \<mapsto> ([], Skip, Num 8), ''h'' \<mapsto> ([], Skip, Num 9)])
     Map.empty (CallOrInvocation ''f'' []) 7 Map.empty"
  using fresh_function_preserves_evaluation[OF ex_call_f, of "''g''" "([], Skip, Num 8)"
      "[''g'' \<mapsto> ([], Skip, Num 8), ''h'' \<mapsto> ([], Skip, Num 9)]"]
  by simp

section \<open>Macro definitions shadow function definitions\<close>

text \<open>
  Claim C4.  Every evaluation of an invocation \<open>CallOrInvocation x es\<close> is, when \<open>x\<close> is
  bound in the macro table, a macro expansion (the substituted body evaluated, whatever
  the function table holds for \<open>x\<close>), and is a function call only when \<open>x\<close> is not
  bound in the macro table.
\<close>

theorem macro_shadows_function:
  assumes "EvalExpr uop bop S E G F M (CallOrInvocation x es) v S'"
  shows "(x \<in> dom M \<longrightarrow>
           (\<exists>params mexpr ef. M x = Some (params, mexpr) \<and> distinct params \<and>
              MacroSubst params es mexpr ef \<and>
              EvalExpr uop bop S E G F (M(x := None)) ef v S')) \<and>
         (x \<notin> dom M \<longrightarrow>
           (\<exists>params fstmt fexpr vs S1 Ef Sargs l ls S3 S4.
              F x = Some (params, fstmt, fexpr) \<and> distinct params \<and>
              EvalExprList uop bop S E G F M params es vs S1 Ef Sargs l ls \<and>
              Ef = map_of (zip params ls) \<and> Sargs = map_of (zip ls vs) \<and>
              dom S1 \<inter> dom Sargs = {} \<and>
              EvalStmt uop bop (S1 ++ Sargs) Ef G F M fstmt S3 \<and>
              EvalExpr uop bop S3 Ef G F M fexpr v S4 \<and>
              S' = S4 |` dom S))"
  using assms
proof (rule CallOrInvocation_E)
  fix params fstmt fexpr vs S1 l ls S3 S4
  assume "S' = S4 |` dom S" "x \<notin> dom M" "F x = Some (params, fstmt, fexpr)" "distinct params"
    "EvalExprList uop bop S E G F M params es vs S1 (map_of (zip params ls))
       (map_of (zip ls vs)) l ls"
    "dom S1 \<inter> dom (map_of (zip ls vs)) = {}"
    "EvalStmt uop bop (S1 ++ map_of (zip ls vs)) (map_of (zip params ls)) G F M fstmt S3"
    "EvalExpr uop bop S3 (map_of (zip params ls)) G F M fexpr v S4"
  then show ?thesis by blast
next
  fix params mexpr ef
  assume "M x = Some (params, mexpr)" "distinct params" "MacroSubst params es mexpr ef"
    "EvalExpr uop bop S E G F (M(x := None)) ef v S'"
  then show ?thesis by blast
qed

lemma ex_shadowing:
  "EvalExpr neg_op plus_op Map.empty Map.empty Map.empty [''X'' \<mapsto> ([], Skip, Num 2)]
     [''X'' \<mapsto> ([], Num 1)] (CallOrInvocation ''X'' []) 1 Map.empty"
  by (rule E_MacroInvocation_object[where mexpr="Num 1"]) (simp_all add: E_Num)

theorem macro_shadows_function_witness:
  "EvalExpr neg_op plus_op Map.empty Map.empty Map.empty [''X'' \<mapsto> ([], Skip, Num 2)]
     [''X'' \<mapsto> ([], Num 1)] (CallOrInvocation ''X'' []) 1 Map.empty \<and>
   (\<exists>ef. MacroSubst [] [] (Num 1) ef \<and>
      EvalExpr neg_op plus_op Map.empty Map.empty Map.empty [''X'' \<mapsto> ([], Skip, Num 2)]
        Map.empty ef 1 Map.empty)"
  using macro_shadows_function[OF ex_shadowing] ex_shadowing by simp

section \<open>A macro is removed from the table while its body is evaluated\<close>

text \<open>
  Claim C5.  Whenever an invocation of the macro \<open>x\<close> is evaluated, the fully substituted
  body is evaluated under the macro table from which \<open>x\<close> has been removed; that table
  does not bind \<open>x\<close>, so an invocation of \<open>x\<close> evaluated under it is never an expansion
  of the macro: it can only be a call of a function \<open>x\<close> of the function table.
\<close>

theorem macro_body_evaluated_without_macro:
  assumes "EvalExpr uop bop S E G F M (CallOrInvocation x es) v S'"
    and "M x = Some (params, mexpr)"
  shows "\<exists>ef. MacroSubst params es mexpr ef \<and>
           EvalExpr uop bop S E G F (M(x := None)) ef v S' \<and>
           x \<notin> dom (M(x := None)) \<and>
           (\<forall>T E' es' w T'.
              EvalExpr uop bop T E' G F (M(x := None)) (CallOrInvocation x es') w T' \<longrightarrow>
              x \<in> dom F)"
  using assms(1)
proof (rule CallOrInvocation_E)
  assume "x \<notin> dom M"
  with assms(2) show ?thesis by auto
next
  fix params' mexpr' ef
  assume a: "M x = Some (params', mexpr')" "MacroSubst params' es mexpr' ef"
    "EvalExpr uop bop S E G F (M(x := None)) ef v S'"
  have "x \<in> dom F"
    if "EvalExpr uop bop T E' G F (M(x := None)) (CallOrInvocation x es') w T'"
    for T E' es' w T'
    using that by (rule CallOrInvocation_E) auto
  with a assms(2) show ?thesis by auto
qed

lemma ex_identity_macro:
  "EvalExpr neg_op plus_op Map.empty Map.empty Map.empty Map.empty
     [''ID'' \<mapsto> ([''p''], Var ''p'')] (CallOrInvocation ''ID'' [Num 5]) 5 Map.empty"
  by (rule E_MacroInvocation_unary[where ef="Num 5" and mexpr="Var ''p''" and p="''p''"])
    (simp_all add: E_Num MS_Var_Replace)

theorem macro_body_evaluated_without_macro_witness:
  "\<exists>ef. MacroSubst [''p''] [Num 5] (Var ''p'') ef \<and>
     EvalExpr neg_op plus_op Map.empty Map.empty Map.empty Map.empty Map.empty ef 5 Map.empty"
  using macro_body_evaluated_without_macro[OF ex_identity_macro, of "[''p'']" "Var ''p''"]
  by auto

section \<open>Determinism\<close>

text \<open>
  Claim C3.  Evaluation is deterministic: two evaluations of one expression under the same
  store, environments and tables give the same value and the same final store; and macro
  substitution of the same parameters and arguments into the same body gives the same
  expression (EvalExpr_deterministic, MacroSubst_deterministic).
\<close>

theorem evaluation_and_substitution_deterministic:
  "(EvalExpr uop bop S E G F M e v1 S1 \<longrightarrow> EvalExpr uop bop S E G F M e v2 S2 \<longrightarrow>
      v1 = v2 \<and> S1 = S2) \<and>
   (MacroSubst params es mexpr ef \<longrightarrow> MacroSubst params es mexpr ef0 \<longrightarrow> ef = ef0)"
  using Eval_deterministic(1) MacroSubst_deterministic by blast

lemma ex_sum:
  "EvalExpr neg_op plus_op Map.empty Map.empty Map.empty Map.empty Map.empty
     (BinExpr () (Num 1) (Num 2)) 3 Map.empty"
proof -
  have "EvalExpr neg_op plus_op Map.empty Map.empty Map.empty Map.empty Map.empty
      (BinExpr () (Num 1) (Num 2)) (plus_op () 1 2) Map.empty"
    by (rule E_BinExpr[OF E_Num E_Num])
  then show ?thesis by (simp add: plus_op_def)
qed

lemma ex_subst: "MacroSubst [''p''] [Num 1] (Var ''p'') (Num 1 :: (unit, unit) expr)"
  by (rule MacroSubst_cons[OF MS_Var_Replace MacroSubst_nil]) simp

theorem evaluation_and_substitution_deterministic_witness:
  "\<not> EvalExpr neg_op plus_op Map.empty Map.empty Map.empty Map.empty Map.empty
       (BinExpr () (Num 1) (Num 2)) 4 Map.empty \<and>
   \<not> MacroSubst [''p''] [Num 1] (Var ''p'') (Var ''p'' :: (unit, unit) expr)"
  using evaluation_and_substitution_deterministic[of neg_op plus_op Map.empty Map.empty
      Map.empty Map.empty Map.empty "BinExpr () (Num 1) (Num 2)" 3 Map.empty 4 Map.empty
      "[''p'']" "[Num 1]" "Var ''p''" "Num 1" "Var ''p''"]
    ex_sum ex_subst
  by auto

section \<open>Properties of the side-effect analyzer\<close>

text \<open>
  The facts that Theorems.v takes from the analyzer, here of the model: an expression
  that is not flagged leaves the store unchanged (\<open>not_ExprHasSideEffects_S_Equal\<close>),
  invokes no macro (\<open>not_ExprHasSideEffects_ExprNoMacroInvocations\<close>), stays unflagged
  when an unflagged argument is substituted into it
  (\<open>not_ExprHasSideEffects_MacroSubst_not_ExprHasSideEffects\<close>), and evaluates alike
  under every function table and macro table.
\<close>

lemma ContainsAssign_ExprHasSideEffects: "ContainsAssign e \<Longrightarrow> ExprHasSideEffects e"
  by (induction e) auto

lemma not_ExprHasSideEffects_S_Equal:
  "\<not> ExprHasSideEffects e \<Longrightarrow> EvalExpr uop bop S E G F M e v S' \<Longrightarrow> S' = S"
proof (induction e arbitrary: S v S')
  case (Num z)
  from Num.prems(2) show ?case by (rule Num_E)
next
  case (Var x)
  from Var.prems(2) show ?case by (rule Var_E)
next
  case (ParenExpr e0)
  from ParenExpr.prems(2) have "EvalExpr uop bop S E G F M e0 v S'" by (rule ParenExpr_E)
  with ParenExpr.IH ParenExpr.prems(1) show ?case by simp
next
  case (UnExpr uo e0)
  from UnExpr.prems(2) obtain w where "EvalExpr uop bop S E G F M e0 w S'"
    by (rule UnExpr_E)
  with UnExpr.IH UnExpr.prems(1) show ?case by simp
next
  case (BinExpr bo e1 e2)
  from BinExpr.prems(2) obtain w1 T w2 where
    a: "EvalExpr uop bop S E G F M e1 w1 T" "EvalExpr uop bop T E G F M e2 w2 S'"
    by (rule BinExpr_E)
  from BinExpr.IH(1)[OF _ a(1)] BinExpr.prems(1) have "T = S" by simp
  moreover from BinExpr.IH(2)[OF _ a(2)] BinExpr.prems(1) have "S' = T" by simp
  ultimately show ?case by simp
next
  case (Assign x e0)
  from Assign.prems(1) show ?case by simp
next
  case (CallOrInvocation x es)
  from CallOrInvocation.prems(1) show ?case by simp
qed

lemma not_ExprHasSideEffects_ExprNoMacroInvocations:
  "\<not> ExprHasSideEffects e \<Longrightarrow> ExprNoMacroInvocations e F M"
  by (induction e) simp_all

lemma not_ExprHasSideEffects_MSub:
  "MSub p a m ef \<Longrightarrow> \<not> ExprHasSideEffects m \<Longrightarrow> \<not> ExprHasSideEffects a \<Longrightarrow>
     \<not> ExprHasSideEffects ef"
proof (induction m arbitrary: ef)
  case (Num z)
  from Num.prems(1) have "ef = Num z" by (rule MSub_Num_E)
  then show ?case by simp
next
  case (Var x)
  from Var.prems(1) have "ef = a \<or> ef = Var x" by (rule MSub_Var_E) simp_all
  with Var.prems(3) show ?case by auto
next
  case (ParenExpr m0)
  from ParenExpr.prems(1) obtain ef0 where "ef = ParenExpr ef0" "MSub p a m0 ef0"
    by (rule MSub_ParenExpr_E)
  with ParenExpr.IH ParenExpr.prems(2,3) show ?case by simp
next
  case (UnExpr uo m0)
  from UnExpr.prems(1) obtain ef0 where "ef = UnExpr uo ef0" "MSub p a m0 ef0"
    by (rule MSub_UnExpr_E)
  with UnExpr.IH UnExpr.prems(2,3) show ?case by simp
next
  case (BinExpr bo m1 m2)
  from BinExpr.prems(1) obtain ef1 ef2 where
    "ef = BinExpr bo ef1 ef2" "MSub p a m1 ef1" "MSub p a m2 ef2"
    by (rule MSub_BinExpr_E)
  with BinExpr.IH BinExpr.prems(2,3) show ?case by simp
next
  case (Assign x m0)
  from Assign.prems(2) show ?case by simp
next
  case (CallOrInvocation x es)
  from CallOrInvocation.prems(2) show ?case by simp
qed

lemma MacroSubst_one_parameter:
  assumes "MacroSubst [p] [e] mexpr ef"
  shows "MSub p e mexpr ef"
proof -
  from assms obtain ef0 where "MSub p e mexpr ef0" "MacroSubst [] [] ef0 ef"
    by (rule MacroSubst_cons_E) auto
  moreover from this(2) have "ef0 = ef" by (rule MacroSubst_nil_E) simp
  ultimately show ?thesis by simp
qed

lemma not_ExprHasSideEffects_tables:
  "\<not> ExprHasSideEffects e \<Longrightarrow> EvalExpr uop bop S E G F M e v S' \<Longrightarrow>
     EvalExpr uop bop S E G F' M' e v S'"
proof (induction e arbitrary: S v S')
  case (Num z)
  from Num.prems(2) have "v = z" "S' = S" by (auto elim: Num_E)
  then show ?case by (simp add: E_Num)
next
  case (Var x)
  from Var.prems(2) show ?case
    by (rule Var_E) (auto intro: E_LocalVar E_GlobalVar)
next
  case (ParenExpr e0)
  from ParenExpr.prems(2) have "EvalExpr uop bop S E G F M e0 v S'" by (rule ParenExpr_E)
  with ParenExpr.IH ParenExpr.prems(1) show ?case by (auto intro: E_ParenExpr)
next
  case (UnExpr uo e0)
  from UnExpr.prems(2) obtain w where "v = uop uo w" "EvalExpr uop bop S E G F M e0 w S'"
    by (rule UnExpr_E)
  with UnExpr.IH UnExpr.prems(1) show ?case by (auto intro: E_UnExpr)
next
  case (BinExpr bo e1 e2)
  from BinExpr.prems(2) obtain w1 T w2 where
    a: "v = bop bo w1 w2" "EvalExpr uop bop S E G F M e1 w1 T"
      "EvalExpr uop bop T E G F M e2 w2 S'"
    by (rule BinExpr_E)
  from BinExpr.IH(1)[OF _ a(2)] BinExpr.prems(1)
  have "EvalExpr uop bop S E G F' M' e1 w1 T" by simp
  moreover from BinExpr.IH(2)[OF _ a(3)] BinExpr.prems(1)
  have "EvalExpr uop bop T E G F' M' e2 w2 S'" by simp
  ultimately show ?case unfolding a(1) by (rule E_BinExpr)
next
  case (Assign x e0)
  from Assign.prems(1) show ?case by simp
next
  case (CallOrInvocation x es)
  from CallOrInvocation.prems(1) show ?case by simp
qed

lemma not_ExprHasSideEffects_no_locals:
  "\<not> ExprHasSideEffects e \<Longrightarrow> ExprNoVarsInEnvironment e E \<Longrightarrow>
     EvalExpr uop bop S E G F M e v S' \<Longrightarrow> EvalExpr uop bop S Map.empty G F M e v S'"
proof (induction e arbitrary: S v S')
  case (Num z)
  from Num.prems(3) have "v = z" "S' = S" by (auto elim: Num_E)
  then show ?case by (simp add: E_Num)
next
  case (Var x)
  from Var.prems(2) have "x \<notin> dom E" by simp
  with Var.prems(3) show ?case
    by (auto elim!: Var_E intro: E_GlobalVar)
next
  case (ParenExpr e0)
  from ParenExpr.prems(3) have "EvalExpr uop bop S E G F M e0 v S'" by (rule ParenExpr_E)
  with ParenExpr.IH ParenExpr.prems(1,2) show ?case by (auto intro: E_ParenExpr)
next
  case (UnExpr uo e0)
  from UnExpr.prems(3) obtain w where "v = uop uo w" "EvalExpr uop bop S E G F M e0 w S'"
    by (rule UnExpr_E)
  with UnExpr.IH UnExpr.prems(1,2) show ?case by (auto intro: E_UnExpr)
next
  case (BinExpr bo e1 e2)
  from BinExpr.prems(3) obtain w1 T w2 where
    a: "v = bop bo w1 w2" "EvalExpr uop bop S E G F M e1 w1 T"
      "EvalExpr uop bop T E G F M e2 w2 S'"
    by (rule BinExpr_E)
  from BinExpr.IH(1)[OF _ _ a(2)] BinExpr.prems(1,2)
  have "EvalExpr uop bop S Map.empty G F M e1 w1 T" by simp
  moreover from BinExpr.IH(2)[OF _ _ a(3)] BinExpr.prems(1,2)
  have "EvalExpr uop bop T Map.empty G F M e2 w2 S'" by simp
  ultimately show ?case unfolding a(1) by (rule E_BinExpr)
next
  case (Assign x e0)
  from Assign.prems(1) show ?case by simp
next
  case (CallOrInvocation x es)
  from CallOrInvocation.prems(1) show ?case by simp
qed

section \<open>Expressions without side effects leave the store unchanged\<close>

text \<open>
  Claim C6.  Every terminating evaluation of an expression that the side-effect analyzer
  does not flag leaves the store unchanged: the final store is the initial store
  (\<open>not_ExprHasSideEffects_S_Equal\<close>).  And every expression that contains an \<open>Assign\<close>
  node, at whatever depth, is flagged by the analyzer.
\<close>

theorem unflagged_expression_leaves_store_unchanged:
  "(\<not> ExprHasSideEffects e \<longrightarrow> EvalExpr uop bop S E G F M e v S' \<longrightarrow> S' = S) \<and>
   (ContainsAssign e \<longrightarrow> ExprHasSideEffects e)"
proof (intro conjI impI)
  assume "\<not> ExprHasSideEffects e" "EvalExpr uop bop S E G F M e v S'"
  then show "S' = S" by (rule not_ExprHasSideEffects_S_Equal)
next
  assume "ContainsAssign e"
  then show "ExprHasSideEffects e" by (rule ContainsAssign_ExprHasSideEffects)
qed

text \<open>
  The sum of a global variable and a negated constant is not flagged; it evaluates to
  \<open>4\<close> and ends in the store it started from, and in no other.  A call with an
  assignment among its arguments is flagged.
\<close>

lemma ex_global_sum:
  "EvalExpr neg_op plus_op [5 \<mapsto> 6] Map.empty [''g'' \<mapsto> 5] F M
     (BinExpr () (Var ''g'') (UnExpr () (Num 2))) 4 [5 \<mapsto> 6]"
proof -
  have g: "EvalExpr neg_op plus_op [5 \<mapsto> 6] Map.empty [''g'' \<mapsto> 5] F M (Var ''g'') 6 [5 \<mapsto> 6]"
    by (rule E_GlobalVar[where l=5]) simp_all
  have n: "EvalExpr neg_op plus_op [5 \<mapsto> 6] Map.empty [''g'' \<mapsto> 5] F M (UnExpr () (Num 2))
      (neg_op () 2) [5 \<mapsto> 6]"
    by (rule E_UnExpr[OF E_Num])
  from E_BinExpr[OF g n, of "()"] show ?thesis by (simp add: plus_op_def neg_op_def)
qed

theorem unflagged_expression_leaves_store_unchanged_witness:
  "\<not> ExprHasSideEffects (BinExpr () (Var ''g'') (UnExpr () (Num 2)) :: (unit, unit) expr) \<and>
   EvalExpr neg_op plus_op [5 \<mapsto> 6] Map.empty [''g'' \<mapsto> 5] Map.empty Map.empty
     (BinExpr () (Var ''g'') (UnExpr () (Num 2))) 4 [5 \<mapsto> 6] \<and>
   \<not> EvalExpr neg_op plus_op [5 \<mapsto> 6] Map.empty [''g'' \<mapsto> 5] Map.empty Map.empty
     (BinExpr () (Var ''g'') (UnExpr () (Num 2))) 4 [5 \<mapsto> 4] \<and>
   ContainsAssign (CallOrInvocation ''f'' [Assign ''g'' (Num 9)] :: (unit, unit) expr) \<and>
   ExprHasSideEffects (CallOrInvocation ''f'' [Assign ''g'' (Num 9)] :: (unit, unit) expr)"
proof -
  let ?e = "BinExpr () (Var ''g'') (UnExpr () (Num 2)) :: (unit, unit) expr"
  let ?a = "CallOrInvocation ''f'' [Assign ''g'' (Num 9)] :: (unit, unit) expr"
  let ?F = "Map.empty :: (unit, unit) function_table"
  let ?M = "Map.empty :: (unit, unit) macro_table"
  have u: "\<not> ExprHasSideEffects ?e" by simp
  have n: "[5 \<mapsto> 4] \<noteq> ([5 \<mapsto> 6] :: store)" by (simp add: fun_eq_iff)
  from unflagged_expression_leaves_store_unchanged[of ?e neg_op plus_op "[5 \<mapsto> 6]"
      Map.empty "[''g'' \<mapsto> 5]" ?F ?M 4 "[5 \<mapsto> 4]"] u n
  have "\<not> EvalExpr neg_op plus_op [5 \<mapsto> 6] Map.empty [''g'' \<mapsto> 5] ?F ?M ?e 4 [5 \<mapsto> 4]"
    by blast
  moreover have c: "ContainsAssign ?a" by simp
  moreover
  from unflagged_expression_leaves_store_unchanged[of ?a neg_op plus_op Map.empty Map.empty
      Map.empty ?F ?M 0 Map.empty] c
  have "ExprHasSideEffects ?a" by blast
  ultimately show ?thesis using u ex_global_sum[of ?F ?M] by blast
qed

section \<open>Evaluation of argument lists\<close>

text \<open>
  \<open>E_ExprList_nil\<close> hands out the L-value \<open>1\<close> and \<open>E_ExprList_cons\<close> passes it on, so
  every argument is stored at location \<open>1\<close>; the premise \<open>l \<notin> dom Sargs'\<close> of
  \<open>E_ExprList_cons\<close> then fails for the second argument from the right.  A list of one
  argument evaluates the argument once, in the caller's environment, and binds the
  parameter to location \<open>1\<close>; a list of two or more arguments does not evaluate.
\<close>

lemma EvalExprList_lvalue:
  "EvalExprList uop bop S E G F M ps es vs S1 Ef Sargs l ls \<Longrightarrow> l = 1"
  by (induction rule: EvalExpr_EvalExprList_EvalStmt.inducts(2)) simp_all

lemma EvalExprList_no_arguments:
  assumes "EvalExprList uop bop S E G F M ps [] vs S1 Ef Sargs l ls"
  shows "ps = [] \<and> vs = [] \<and> S1 = S \<and> Ef = Map.empty \<and> Sargs = Map.empty \<and> ls = [0]"
  using assms by (rule ExprList_nil_E) simp

lemma EvalExprList_one_argument:
  assumes "EvalExprList uop bop S E G F M [p] [e] vs S1 Ef Sargs l ls"
  shows "\<exists>va. vs = [va] \<and> EvalExpr uop bop S E G F M e va S1 \<and> Ef = [p \<mapsto> 1] \<and>
           Sargs = [1 \<mapsto> va] \<and> ls = [1, 0]"
  using assms
proof (rule ExprList_cons_E)
  fix w Snext ps' vs' Ef' Sargs' ls' q
  assume a: "[p] = q # ps'" "vs = w # vs'" "Ef = Ef'(q \<mapsto> l)" "Sargs = Sargs'(l \<mapsto> w)"
    "ls = l # ls'"
    "EvalExpr uop bop S E G F M e w Snext"
    "EvalExprList uop bop Snext E G F M ps' [] vs' S1 Ef' Sargs' l ls'"
  from a(7) have "S1 = Snext" "Ef' = Map.empty" "Sargs' = Map.empty" "l = 1" "vs' = []"
    "ls' = [0]"
    by (auto elim: ExprList_nil_E)
  with a show ?thesis by simp
qed

lemma EvalExprList_two_arguments:
  assumes "EvalExprList uop bop S E G F M ps (e1 # e2 # es) vs S1 Ef Sargs l ls"
  shows False
  using assms
proof (rule ExprList_cons_E)
  fix v Snext ps' vs' Ef' Sargs' ls' p
  assume a: "EvalExprList uop bop Snext E G F M ps' (e2 # es) vs' S1 Ef' Sargs' l ls'"
    "l \<notin> dom Sargs'"
  from a(1) have "l \<in> dom Sargs'" by (rule ExprList_cons_E) simp
  with a(2) show False by simp
qed

section \<open>Call by name and call by value\<close>

text \<open>
  The argument \<open>e\<close> evaluates to \<open>va\<close> without changing the store \<open>S\<close>, and location
  \<open>1\<close>, where a call stores its argument, is not in use.  Then the body \<open>m\<close> with \<open>e\<close>
  substituted for the parameter \<open>p\<close>, evaluated in the caller's environment, and the body
  itself, evaluated in the callee's environment \<open>[p \<mapsto> 1]\<close> over the store \<open>S(1 \<mapsto> va)\<close>,
  have the same value.  A variable of the body other than \<open>p\<close> is global on both sides:
  the caller does not bind it, and the callee binds \<open>p\<close> only.
\<close>

lemma call_by_name_value:
  assumes arg: "EvalExpr uop bop S Ecaller G F M e va S"
    and arg_unflagged: "\<not> ExprHasSideEffects e"
    and fresh: "1 \<notin> dom S"
  shows "MSub p e m ef \<Longrightarrow> \<not> ExprHasSideEffects m \<Longrightarrow> ExprNoVarsInEnvironment m Ecaller \<Longrightarrow>
     EvalExpr uop bop S Ecaller G F M ef v S3 \<Longrightarrow>
     EvalExpr uop bop (S(1 \<mapsto> va)) [p \<mapsto> 1] G F M m v0 T3 \<Longrightarrow> v = v0"
proof (induction m arbitrary: ef v S3 v0 T3)
  case (Num z)
  from Num.prems(1) have "ef = Num z" by (rule MSub_Num_E)
  with Num.prems(4) have "v = z" by (auto elim: Num_E)
  moreover from Num.prems(5) have "v0 = z" by (rule Num_E)
  ultimately show ?case by simp
next
  case (Var x)
  show ?case
  proof (cases "p = x")
    case True
    with Var.prems(1) have "ef = e" by (auto elim: MSub_Var_E)
    with Var.prems(4) Eval_deterministic(1)[OF arg] have "v = va" by blast
    moreover from Var.prems(5) True have "v0 = va" by (auto elim!: Var_E)
    ultimately show ?thesis by simp
  next
    case False
    with Var.prems(1) have ef: "ef = Var x" by (auto elim: MSub_Var_E)
    from Var.prems(3) have nx: "x \<notin> dom Ecaller" by simp
    from Var.prems(4)[unfolded ef] nx obtain l where l: "G x = Some l" "S l = Some v"
      by (auto elim!: Var_E)
    from l(2) fresh have "l \<noteq> 1" by auto
    with Var.prems(5) False l show ?thesis by (auto elim!: Var_E)
  qed
next
  case (ParenExpr m0)
  from ParenExpr.prems(1) obtain ef0 where ef: "ef = ParenExpr ef0" "MSub p e m0 ef0"
    by (rule MSub_ParenExpr_E)
  from ParenExpr.prems(4)[unfolded ef(1)] have a: "EvalExpr uop bop S Ecaller G F M ef0 v S3"
    by (rule ParenExpr_E)
  from ParenExpr.prems(5) have b: "EvalExpr uop bop (S(1 \<mapsto> va)) [p \<mapsto> 1] G F M m0 v0 T3"
    by (rule ParenExpr_E)
  from ParenExpr.prems(2,3) show ?case
    by (intro ParenExpr.IH[OF ef(2) _ _ a b]) simp_all
next
  case (UnExpr uo m0)
  from UnExpr.prems(1) obtain ef0 where ef: "ef = UnExpr uo ef0" "MSub p e m0 ef0"
    by (rule MSub_UnExpr_E)
  from UnExpr.prems(4)[unfolded ef(1)] obtain w where
    a: "v = uop uo w" "EvalExpr uop bop S Ecaller G F M ef0 w S3"
    by (rule UnExpr_E)
  from UnExpr.prems(5) obtain w0 where
    b: "v0 = uop uo w0" "EvalExpr uop bop (S(1 \<mapsto> va)) [p \<mapsto> 1] G F M m0 w0 T3"
    by (rule UnExpr_E)
  from UnExpr.prems(2,3) have "w = w0"
    by (intro UnExpr.IH[OF ef(2) _ _ a(2) b(2)]) simp_all
  with a(1) b(1) show ?case by simp
next
  case (BinExpr bo m1 m2)
  from BinExpr.prems(1) obtain ef1 ef2 where
    ef: "ef = BinExpr bo ef1 ef2" "MSub p e m1 ef1" "MSub p e m2 ef2"
    by (rule MSub_BinExpr_E)
  from BinExpr.prems(2) have u: "\<not> ExprHasSideEffects m1" "\<not> ExprHasSideEffects m2"
    by simp_all
  from BinExpr.prems(3) have n: "ExprNoVarsInEnvironment m1 Ecaller"
    "ExprNoVarsInEnvironment m2 Ecaller" by simp_all
  from BinExpr.prems(4)[unfolded ef(1)] obtain w1 S' w2 where
    a: "v = bop bo w1 w2" "EvalExpr uop bop S Ecaller G F M ef1 w1 S'"
      "EvalExpr uop bop S' Ecaller G F M ef2 w2 S3"
    by (rule BinExpr_E)
  from BinExpr.prems(5) obtain w1' T w2' where
    b: "v0 = bop bo w1' w2'" "EvalExpr uop bop (S(1 \<mapsto> va)) [p \<mapsto> 1] G F M m1 w1' T"
      "EvalExpr uop bop T [p \<mapsto> 1] G F M m2 w2' T3"
    by (rule BinExpr_E)
  from not_ExprHasSideEffects_S_Equal[OF u(1) b(2)] have t: "T = S(1 \<mapsto> va)" .
  from not_ExprHasSideEffects_MSub[OF ef(2) u(1) arg_unflagged]
  have "\<not> ExprHasSideEffects ef1" .
  from not_ExprHasSideEffects_S_Equal[OF this a(2)] have s: "S' = S" .
  have "w1 = w1'" by (rule BinExpr.IH(1)[OF ef(2) u(1) n(1) a(2) b(2)])
  moreover have "w2 = w2'"
    by (rule BinExpr.IH(2)[OF ef(3) u(2) n(2) a(3)[unfolded s] b(3)[unfolded t]])
  ultimately show ?case using a(1) b(1) by simp
next
  case (Assign x m0)
  from Assign.prems(2) show ?case by simp
next
  case (CallOrInvocation x es)
  from CallOrInvocation.prems(2) show ?case by simp
qed

text \<open>
  Claim C2.  Let a macro have one parameter \<open>p\<close> and a body \<open>mexpr\<close> that has no side
  effects, contains no macro invocation and names no variable of the caller's local
  environment, and let the argument \<open>e\<close> have no side effects and contain no macro
  invocation.  Then the body with the argument substituted, evaluated in the caller's
  environment (call by name), and the body evaluated as the body of a function, with the
  argument evaluated once by \<open>EvalExprList\<close> and bound to the parameter (call by value),
  have the same value, however often the body reads the parameter.  These are the
  hypotheses of \<open>no_side_effects_no_shared_vars_with_caller_evalargs_macrosubst_1\<close> in
  Theorems.v, which proves the case of a body that is a variable
  (\<open>not_ExprSideEffects_ExprNoVarsInEnvironment_call_by_name_call_by_value\<close>).
\<close>

theorem call_by_name_equals_call_by_value:
  assumes "\<not> ExprHasSideEffects mexpr"
    and "ExprNoMacroInvocations mexpr F M"
    and "ExprNoVarsInEnvironment mexpr Ecaller"
    and "\<not> ExprHasSideEffects e"
    and "ExprNoMacroInvocations e F M"
    and "MacroSubst [p] [e] mexpr ef"
    and "EvalExpr uop bop S Ecaller G F M ef v S3"
    and "EvalExprList uop bop S Ecaller G F M [p] [e] [va] S1 Ef Sargs l ls"
    and "dom S1 \<inter> dom Sargs = {}"
    and "EvalExpr uop bop (S1 ++ Sargs) Ef G F M mexpr v0 T3"
  shows "v = v0"
proof -
  from EvalExprList_one_argument[OF assms(8)]
  have a: "EvalExpr uop bop S Ecaller G F M e va S1" "Ef = [p \<mapsto> 1]" "Sargs = [1 \<mapsto> va]"
    by simp_all
  from not_ExprHasSideEffects_S_Equal[OF assms(4) a(1)] have s: "S1 = S" .
  from assms(9) a(3) s have fresh: "1 \<notin> dom S" by simp
  from assms(6) have sub: "MSub p e mexpr ef" by (rule MacroSubst_one_parameter)
  from assms(10) a(2,3) s
  have f: "EvalExpr uop bop (S(1 \<mapsto> va)) [p \<mapsto> 1] G F M mexpr v0 T3" by simp
  from call_by_name_value[OF a(1)[unfolded s] assms(4) fresh sub assms(1,3,7) f]
  show ?thesis .
qed

text \<open>
  The body \<open>p + p\<close> reads its parameter twice.  With the argument \<open>4\<close> the substituted
  body \<open>4 + 4\<close> evaluates to \<open>8\<close>, and so does the body in the callee's environment,
  which cannot evaluate to \<open>9\<close>.
\<close>

lemma ex_double_substituted:
  "EvalExpr neg_op plus_op S E G F M (BinExpr () (Num 4) (Num 4)) 8 S"
proof -
  have "EvalExpr neg_op plus_op S E G F M (BinExpr () (Num 4) (Num 4)) (plus_op () 4 4) S"
    by (rule E_BinExpr[OF E_Num E_Num])
  then show ?thesis by (simp add: plus_op_def)
qed

lemma ex_double_body:
  "EvalExpr neg_op plus_op [1 \<mapsto> 4] [''p'' \<mapsto> 1] G F M (BinExpr () (Var ''p'') (Var ''p'')) 8
     [1 \<mapsto> 4]"
proof -
  have v: "EvalExpr neg_op plus_op [1 \<mapsto> 4] [''p'' \<mapsto> 1] G F M (Var ''p'') 4 [1 \<mapsto> 4]"
    by (rule E_LocalVar[where l=1]) simp_all
  have "EvalExpr neg_op plus_op [1 \<mapsto> 4] [''p'' \<mapsto> 1] G F M (BinExpr () (Var ''p'') (Var ''p''))
      (plus_op () 4 4) [1 \<mapsto> 4]"
    by (rule E_BinExpr[OF v v])
  then show ?thesis by (simp add: plus_op_def)
qed

lemma ex_one_argument:
  "EvalExprList uop bop S E G F M [p] [Num z] [z] S [p \<mapsto> 1] [1 \<mapsto> z] 1 [1, 0]"
  using E_ExprList_cons[OF E_Num E_ExprList_nil, of p uop bop S E G F M z] by simp

theorem call_by_name_equals_call_by_value_witness:
  "MacroSubst [''p''] [Num 4] (BinExpr () (Var ''p'') (Var ''p''))
     (BinExpr () (Num 4) (Num 4) :: (unit, unit) expr) \<and>
   EvalExpr neg_op plus_op Map.empty Map.empty Map.empty Map.empty Map.empty
     (BinExpr () (Num 4) (Num 4)) 8 Map.empty \<and>
   EvalExprList neg_op plus_op Map.empty Map.empty Map.empty Map.empty Map.empty [''p'']
     [Num 4] [4] Map.empty [''p'' \<mapsto> 1] [1 \<mapsto> 4] 1 [1, 0] \<and>
   EvalExpr neg_op plus_op [1 \<mapsto> 4] [''p'' \<mapsto> 1] Map.empty Map.empty Map.empty
     (BinExpr () (Var ''p'') (Var ''p'')) 8 [1 \<mapsto> 4] \<and>
   \<not> EvalExpr neg_op plus_op [1 \<mapsto> 4] [''p'' \<mapsto> 1] Map.empty Map.empty Map.empty
     (BinExpr () (Var ''p'') (Var ''p'')) 9 [1 \<mapsto> 4]"
proof -
  let ?m = "BinExpr () (Var ''p'') (Var ''p'') :: (unit, unit) expr"
  let ?ef = "BinExpr () (Num 4) (Num 4) :: (unit, unit) expr"
  let ?F = "Map.empty :: (unit, unit) function_table"
  let ?M = "Map.empty :: (unit, unit) macro_table"
  have sub: "MacroSubst [''p''] [Num 4] ?m ?ef"
    by (rule MacroSubst_cons[OF MS_BinExpr[OF MS_Var_Replace MS_Var_Replace] MacroSubst_nil])
      simp_all
  have mac: "EvalExpr neg_op plus_op Map.empty Map.empty Map.empty ?F ?M ?ef 8 Map.empty"
    by (rule ex_double_substituted)
  have args: "EvalExprList neg_op plus_op Map.empty Map.empty Map.empty ?F ?M [''p'']
      [Num 4] [4] Map.empty [''p'' \<mapsto> 1] [1 \<mapsto> 4] 1 [1, 0]"
    by (rule ex_one_argument)
  have body: "EvalExpr neg_op plus_op [1 \<mapsto> 4] [''p'' \<mapsto> 1] Map.empty ?F ?M ?m 8 [1 \<mapsto> 4]"
    by (rule ex_double_body)
  have "(8::int) = 9"
    if "EvalExpr neg_op plus_op [1 \<mapsto> 4] [''p'' \<mapsto> 1] Map.empty ?F ?M ?m 9 [1 \<mapsto> 4]"
  proof (rule call_by_name_equals_call_by_value[where F="?F" and M="?M"
        and mexpr="?m" and e="Num 4" and Ecaller=Map.empty, OF _ _ _ _ _ sub mac args])
    show "EvalExpr neg_op plus_op (Map.empty ++ [1 \<mapsto> 4]) [''p'' \<mapsto> 1] Map.empty ?F ?M ?m 9
        [1 \<mapsto> 4]"
      using that by simp
  qed simp_all
  then have "\<not> EvalExpr neg_op plus_op [1 \<mapsto> 4] [''p'' \<mapsto> 1] Map.empty ?F ?M ?m 9 [1 \<mapsto> 4]"
    by auto
  with sub mac args body show ?thesis by blast
qed

section \<open>Calls of a generated function\<close>

lemma generated_nullary_call:
  assumes "fname \<notin> dom M" and "F fname = Some ([], Skip, body)"
  shows "EvalExpr uop bop S E G F M (CallOrInvocation fname []) v S' \<longleftrightarrow>
         (\<exists>S4. EvalExpr uop bop S Map.empty G F M body v S4 \<and> S' = S4 |` dom S)"
proof
  assume "EvalExpr uop bop S E G F M (CallOrInvocation fname []) v S'"
  then show "\<exists>S4. EvalExpr uop bop S Map.empty G F M body v S4 \<and> S' = S4 |` dom S"
  proof (rule CallOrInvocation_E)
    fix params mexpr ef
    assume "M fname = Some (params, mexpr)"
    with assms(1) show ?thesis by auto
  next
    fix params fstmt fexpr vs S1 l ls S3 S4
    assume b: "F fname = Some (params, fstmt, fexpr)"
      "EvalExprList uop bop S E G F M params [] vs S1
         (map_of (zip params ls)) (map_of (zip ls vs)) l ls"
      "EvalStmt uop bop (S1 ++ map_of (zip ls vs)) (map_of (zip params ls)) G F M fstmt S3"
      "EvalExpr uop bop S3 (map_of (zip params ls)) G F M fexpr v S4"
      "S' = S4 |` dom S"
    from b(1) assms(2) have eq: "params = []" "fstmt = Skip" "fexpr = body" by simp_all
    from EvalExprList_no_arguments[OF b(2)] have n: "vs = []" "S1 = S" by simp_all
    from b(3)[unfolded eq n] have "S3 = S" by (auto elim: Skip_E)
    with b(4,5) eq show ?thesis by auto
  qed
next
  assume "\<exists>S4. EvalExpr uop bop S Map.empty G F M body v S4 \<and> S' = S4 |` dom S"
  then obtain S4 where c: "EvalExpr uop bop S Map.empty G F M body v S4" "S' = S4 |` dom S"
    by blast
  from E_FunctionCall_nullary[OF assms(1,2) E_Skip c(1)] c(2)
  show "EvalExpr uop bop S E G F M (CallOrInvocation fname []) v S'" by simp
qed

lemma generated_unary_call:
  assumes "fname \<notin> dom M" and "F fname = Some ([p], Skip, body)"
  shows "EvalExpr uop bop S E G F M (CallOrInvocation fname [e]) v S' \<longleftrightarrow>
         (\<exists>va S1 S4. EvalExpr uop bop S E G F M e va S1 \<and> 1 \<notin> dom S1 \<and>
            EvalExpr uop bop (S1(1 \<mapsto> va)) [p \<mapsto> 1] G F M body v S4 \<and> S' = S4 |` dom S)"
proof
  assume "EvalExpr uop bop S E G F M (CallOrInvocation fname [e]) v S'"
  then show "\<exists>va S1 S4. EvalExpr uop bop S E G F M e va S1 \<and> 1 \<notin> dom S1 \<and>
            EvalExpr uop bop (S1(1 \<mapsto> va)) [p \<mapsto> 1] G F M body v S4 \<and> S' = S4 |` dom S"
  proof (rule CallOrInvocation_E)
    fix params mexpr ef
    assume "M fname = Some (params, mexpr)"
    with assms(1) show ?thesis by auto
  next
    fix params fstmt fexpr vs S1 l ls S3 S4
    assume b: "F fname = Some (params, fstmt, fexpr)"
      "EvalExprList uop bop S E G F M params [e] vs S1
         (map_of (zip params ls)) (map_of (zip ls vs)) l ls"
      "dom S1 \<inter> dom (map_of (zip ls vs)) = {}"
      "EvalStmt uop bop (S1 ++ map_of (zip ls vs)) (map_of (zip params ls)) G F M fstmt S3"
      "EvalExpr uop bop S3 (map_of (zip params ls)) G F M fexpr v S4"
      "S' = S4 |` dom S"
    from b(1) assms(2) have eq: "params = [p]" "fstmt = Skip" "fexpr = body" by simp_all
    from EvalExprList_one_argument[OF b(2)[unfolded eq]] obtain va where
      a: "vs = [va]" "EvalExpr uop bop S E G F M e va S1" "ls = [1, 0]"
      by blast
    from b(3) a(1,3) have fresh: "1 \<notin> dom S1" by simp
    from b(4)[unfolded eq a(1,3)] have "S3 = S1(1 \<mapsto> va)" by (auto elim: Skip_E)
    with b(5) eq a(1,3)
    have "EvalExpr uop bop (S1(1 \<mapsto> va)) [p \<mapsto> 1] G F M body v S4" by simp
    with a(2) fresh b(6) show ?thesis by blast
  qed
next
  assume "\<exists>va S1 S4. EvalExpr uop bop S E G F M e va S1 \<and> 1 \<notin> dom S1 \<and>
            EvalExpr uop bop (S1(1 \<mapsto> va)) [p \<mapsto> 1] G F M body v S4 \<and> S' = S4 |` dom S"
  then obtain va S1 S4 where c: "EvalExpr uop bop S E G F M e va S1" "1 \<notin> dom S1"
    "EvalExpr uop bop (S1(1 \<mapsto> va)) [p \<mapsto> 1] G F M body v S4" "S' = S4 |` dom S"
    by blast
  from E_FunctionCall_unary[OF assms(1,2) c(1,2) E_Skip c(3)] c(4)
  show "EvalExpr uop bop S E G F M (CallOrInvocation fname [e]) v S'" by simp
qed

section \<open>The verdicts of the decision procedure\<close>

lemma Decide_ObjectLikeToNullaryFunction:
  assumes "Decide F M callerEnv (params, body) args = Transformable ObjectLikeToNullaryFunction"
  shows "params = [] \<and> args = [] \<and> \<not> ExprHasSideEffects body \<and>
         ExprNoVarsInEnvironment body callerEnv \<and> ExprNoMacroInvocations body F M"
  using assms by (simp add: Decide_def split: if_splits)

lemma Decide_FunctionLikeToFunction:
  assumes "Decide F M callerEnv (params, body) args = Transformable FunctionLikeToFunction"
  shows "\<exists>p e y. params = [p] \<and> args = [e] \<and> body = Var y \<and> y \<notin> dom callerEnv \<and>
           \<not> ExprHasSideEffects e \<and> ExprNoMacroInvocations e F M"
proof -
  from assms have c: "length args = length params" "length params = 1" "isBareVar body"
    "ExprNoVarsInEnvironment body callerEnv"
    "\<not> list_ex (\<lambda>a. ExprHasSideEffects a \<or> \<not> ExprNoMacroInvocations a F M) args"
    by (simp_all add: Decide_def split: if_splits)
  from c(2) obtain p where p: "params = [p]" by (cases params) simp_all
  from c(1) p obtain e where e: "args = [e]" by (cases args) simp_all
  from c(3) obtain y where y: "body = Var y" by (cases body) simp_all
  from c(4,5) p e y show ?thesis by simp
qed

lemma TransformSite_Transformable:
  assumes "M x = Some (params, body)"
    and "Decide F M callerEnv (params, body) args = Transformable st"
  shows "TransformSite F M callerEnv fname x args =
           Some (F(fname \<mapsto> (params, Skip, body)), CallOrInvocation fname args)"
proof (cases st)
  case ObjectLikeToNullaryFunction
  with Decide_ObjectLikeToNullaryFunction[of F M callerEnv params body args] assms
  show ?thesis by (simp add: TransformSite_def)
next
  case FunctionLikeToFunction
  with assms show ?thesis by (simp add: TransformSite_def)
qed

section \<open>The generated function\<close>

text \<open>
  Claim C7.  A site judged \<open>Transformable\<close> is rewritten into a call of the generated
  name with the arguments of the invocation, and the function table is extended with the
  generated definition: the parameter list of the macro, the body \<open>Skip\<close>, and the macro
  body, not substituted, as return expression.  For an object-like macro the parameter
  list and the argument list are empty, and the call evaluates exactly as the macro body
  evaluates in the empty local environment.  For a function-like macro there is one
  parameter \<open>p\<close> and one argument \<open>e\<close>, and the call evaluates exactly when \<open>e\<close>
  evaluates, once and in the caller's environment, to a value \<open>va\<close>, location \<open>1\<close> is
  free, and the macro body evaluates in the environment that binds \<open>p\<close> alone, to
  location \<open>1\<close>, which holds \<open>va\<close>: the argument is passed by value.  In both cases
  the final store is restricted to the locations of the initial store.  The generated
  name is not the name of a macro.
\<close>

theorem generated_function_shape:
  assumes "M x = Some (params, body)"
    and "Decide F M callerEnv (params, body) args = Transformable st"
    and "fname \<notin> dom M"
    and "F' = F(fname \<mapsto> (params, Skip, body))"
  shows "TransformSite F M callerEnv fname x args = Some (F', CallOrInvocation fname args) \<and>
     (st = ObjectLikeToNullaryFunction \<longrightarrow> params = [] \<and> args = [] \<and>
        (EvalExpr uop bop S E G F' M (CallOrInvocation fname args) v S' \<longleftrightarrow>
           (\<exists>S4. EvalExpr uop bop S Map.empty G F' M body v S4 \<and> S' = S4 |` dom S))) \<and>
     (st = FunctionLikeToFunction \<longrightarrow> (\<exists>p e. params = [p] \<and> args = [e] \<and>
        (EvalExpr uop bop S E G F' M (CallOrInvocation fname args) v S' \<longleftrightarrow>
           (\<exists>va S1 S4. EvalExpr uop bop S E G F' M e va S1 \<and> 1 \<notin> dom S1 \<and>
              EvalExpr uop bop (S1(1 \<mapsto> va)) [p \<mapsto> 1] G F' M body v S4 \<and>
              S' = S4 |` dom S))))"
proof (intro conjI impI)
  from TransformSite_Transformable[OF assms(1,2)] assms(4)
  show "TransformSite F M callerEnv fname x args = Some (F', CallOrInvocation fname args)"
    by simp
next
  assume "st = ObjectLikeToNullaryFunction"
  with Decide_ObjectLikeToNullaryFunction[of F M callerEnv params body args] assms(2)
  have pa: "params = []" "args = []" by simp_all
  then show "params = []" "args = []" by simp_all
  from assms(4) pa have f: "F' fname = Some ([], Skip, body)" by simp
  from generated_nullary_call[where F=F' and fname=fname, OF assms(3) f] pa
  show "EvalExpr uop bop S E G F' M (CallOrInvocation fname args) v S' \<longleftrightarrow>
           (\<exists>S4. EvalExpr uop bop S Map.empty G F' M body v S4 \<and> S' = S4 |` dom S)"
    by simp
next
  assume "st = FunctionLikeToFunction"
  with Decide_FunctionLikeToFunction[of F M callerEnv params body args] assms(2)
  obtain p e where pa: "params = [p]" "args = [e]" by blast
  from assms(4) pa have f: "F' fname = Some ([p], Skip, body)" by simp
  from generated_unary_call[where F=F' and fname=fname, OF assms(3) f] pa
  show "\<exists>p e. params = [p] \<and> args = [e] \<and>
        (EvalExpr uop bop S E G F' M (CallOrInvocation fname args) v S' \<longleftrightarrow>
           (\<exists>va S1 S4. EvalExpr uop bop S E G F' M e va S1 \<and> 1 \<notin> dom S1 \<and>
              EvalExpr uop bop (S1(1 \<mapsto> va)) [p \<mapsto> 1] G F' M body v S4 \<and>
              S' = S4 |` dom S))"
    by simp
qed

text \<open>
  The invocation \<open>ID(4)\<close> of \<open>#define ID(a) a\<close> becomes the call \<open>f0(4)\<close> of the
  function \<open>([a], Skip, a)\<close>, which evaluates to \<open>4\<close>; the invocation of
  \<open>#define TWO 1 + 1\<close> becomes the call \<open>f1()\<close> of the function \<open>([], Skip, 1 + 1)\<close>,
  which evaluates to \<open>2\<close>.
\<close>

theorem generated_function_shape_witness:
  "Decide Map.empty [''ID'' \<mapsto> ([''a''], Var ''a'')] Map.empty ([''a''], Var ''a'')
     [Num 4 :: (unit, unit) expr] = Transformable FunctionLikeToFunction \<and>
   TransformSite Map.empty [''ID'' \<mapsto> ([''a''], Var ''a'')] Map.empty ''f0'' ''ID''
     [Num 4 :: (unit, unit) expr]
     = Some ([''f0'' \<mapsto> ([''a''], Skip, Var ''a'')], CallOrInvocation ''f0'' [Num 4]) \<and>
   EvalExpr neg_op plus_op Map.empty Map.empty Map.empty
     [''f0'' \<mapsto> ([''a''], Skip, Var ''a'')] [''ID'' \<mapsto> ([''a''], Var ''a'')]
     (CallOrInvocation ''f0'' [Num 4]) 4 Map.empty \<and>
   Decide Map.empty [''TWO'' \<mapsto> ([], BinExpr () (Num 1) (Num 1))] Map.empty
     ([], BinExpr () (Num 1) (Num 1) :: (unit, unit) expr) []
     = Transformable ObjectLikeToNullaryFunction \<and>
   TransformSite Map.empty [''TWO'' \<mapsto> ([], BinExpr () (Num 1) (Num 1))] Map.empty ''f1''
     ''TWO'' ([] :: (unit, unit) expr list)
     = Some ([''f1'' \<mapsto> ([], Skip, BinExpr () (Num 1) (Num 1))], CallOrInvocation ''f1'' []) \<and>
   EvalExpr neg_op plus_op Map.empty Map.empty Map.empty
     [''f1'' \<mapsto> ([], Skip, BinExpr () (Num 1) (Num 1))]
     [''TWO'' \<mapsto> ([], BinExpr () (Num 1) (Num 1))] (CallOrInvocation ''f1'' []) 2 Map.empty"
proof -
  let ?M = "[''ID'' \<mapsto> ([''a''], Var ''a'')] :: (unit, unit) macro_table"
  let ?F = "Map.empty :: (unit, unit) function_table"
  let ?F' = "[''f0'' \<mapsto> ([''a''], Skip, Var ''a'')] :: (unit, unit) function_table"
  have d: "Decide ?F ?M Map.empty ([''a''], Var ''a'') [Num 4]
      = Transformable FunctionLikeToFunction"
    by (simp add: Decide_def)
  have m: "?M ''ID'' = Some ([''a''], Var ''a'')" by simp
  have f: "''f0'' \<notin> dom ?M" by simp
  have F': "?F' = ?F(''f0'' \<mapsto> ([''a''], Skip, Var ''a''))" by simp
  note shape = generated_function_shape[OF m d f F', of neg_op plus_op Map.empty Map.empty
      Map.empty 4 Map.empty]
  from shape have site: "TransformSite ?F ?M Map.empty ''f0'' ''ID'' [Num 4]
      = Some (?F', CallOrInvocation ''f0'' [Num 4])"
    by blast
  have arg: "EvalExpr neg_op plus_op Map.empty Map.empty Map.empty ?F' ?M (Num 4) 4 Map.empty"
    by (rule E_Num)
  have body: "EvalExpr neg_op plus_op (Map.empty(1 \<mapsto> 4)) [''a'' \<mapsto> 1] Map.empty ?F' ?M
      (Var ''a'') 4 (Map.empty(1 \<mapsto> 4))"
    by (rule E_LocalVar[where l=1]) simp_all
  have r: "Map.empty = (Map.empty(1 \<mapsto> 4 :: int)) |` dom (Map.empty :: store)" by simp
  from shape obtain p e where pe: "[''a''] = [p]" "[Num 4 :: (unit, unit) expr] = [e]"
    and iff: "EvalExpr neg_op plus_op Map.empty Map.empty Map.empty ?F' ?M
        (CallOrInvocation ''f0'' [Num 4]) 4 Map.empty \<longleftrightarrow>
      (\<exists>va S1 S4. EvalExpr neg_op plus_op Map.empty Map.empty Map.empty ?F' ?M e va S1 \<and>
         1 \<notin> dom S1 \<and>
         EvalExpr neg_op plus_op (S1(1 \<mapsto> va)) [p \<mapsto> 1] Map.empty ?F' ?M (Var ''a'') 4 S4 \<and>
         Map.empty = S4 |` dom (Map.empty :: store))"
    by blast
  from pe have "p = ''a''" "e = Num 4" by simp_all
  with iff arg body r
  have call: "EvalExpr neg_op plus_op Map.empty Map.empty Map.empty ?F' ?M
      (CallOrInvocation ''f0'' [Num 4]) 4 Map.empty"
    by blast
  let ?b = "BinExpr () (Num 1) (Num 1) :: (unit, unit) expr"
  let ?N = "[''TWO'' \<mapsto> ([], ?b)] :: (unit, unit) macro_table"
  let ?H = "[''f1'' \<mapsto> ([], Skip, ?b)] :: (unit, unit) function_table"
  have d2: "Decide ?F ?N Map.empty ([], ?b) [] = Transformable ObjectLikeToNullaryFunction"
    by (simp add: Decide_def)
  have m2: "?N ''TWO'' = Some ([], ?b)" by simp
  have f2: "''f1'' \<notin> dom ?N" by simp
  have H: "?H = ?F(''f1'' \<mapsto> ([], Skip, ?b))" by simp
  note shape2 = generated_function_shape[OF m2 d2 f2 H, of neg_op plus_op Map.empty Map.empty
      Map.empty 2 Map.empty]
  from shape2 have site2: "TransformSite ?F ?N Map.empty ''f1'' ''TWO'' []
      = Some (?H, CallOrInvocation ''f1'' [])"
    by blast
  have "EvalExpr neg_op plus_op Map.empty Map.empty Map.empty ?H ?N ?b (plus_op () 1 1) Map.empty"
    by (rule E_BinExpr[OF E_Num E_Num])
  then have body2: "EvalExpr neg_op plus_op Map.empty Map.empty Map.empty ?H ?N ?b 2 Map.empty"
    by (simp add: plus_op_def)
  have r2: "Map.empty = (Map.empty :: store) |` dom (Map.empty :: store)" by simp
  from shape2 body2 r2
  have call2: "EvalExpr neg_op plus_op Map.empty Map.empty Map.empty ?H ?N
      (CallOrInvocation ''f1'' []) 2 Map.empty"
    by blast
  from d site call d2 site2 call2 show ?thesis by blast
qed

section \<open>Soundness of the transformation\<close>

text \<open>
  Claim C1.  Let the invocation of the macro \<open>x\<close> with the arguments \<open>args\<close>, at a site
  whose local environment is \<open>E\<close>, be transformed into the expression \<open>e'\<close> under the
  function table \<open>F'\<close>, the generated name not being the name of a macro.  If, from the
  same store and under the same environments and macro table, the invocation terminates
  under \<open>F\<close> with value \<open>v1\<close> and store \<open>S1\<close>, and \<open>e'\<close> terminates under \<open>F'\<close> with value
  \<open>v2\<close> and store \<open>S2\<close>, then \<open>v1 = v2\<close> and \<open>S1 = S2\<close>.  This covers a site judged
  \<open>Transformable\<close> under either strategy, rewritten into a call of the generated function,
  and a site left as it is (the macro invocation cases of \<open>transform_expr_sound_mut_v_s\<close>
  in Theorems.v).
\<close>

theorem transformed_site_equivalent:
  assumes "TransformSite F M E fname x args = Some (F', e')"
    and "fname \<notin> dom M"
    and "EvalExpr uop bop S E G F M (CallOrInvocation x args) v1 S1"
    and "EvalExpr uop bop S E G F' M e' v2 S2"
  shows "v1 = v2 \<and> S1 = S2"
proof -
  from assms(1) obtain md where "M x = Some md"
    by (auto simp: TransformSite_def split: option.splits)
  then obtain params body where mx: "M x = Some (params, body)" by (cases md) simp
  from assms(3) obtain ef where
    orig: "MacroSubst params args body ef" "EvalExpr uop bop S E G F (M(x := None)) ef v1 S1"
  proof (rule CallOrInvocation_E)
    fix params' fstmt fexpr vs S1' l ls S3 S4
    assume "x \<notin> dom M"
    with mx show ?thesis by auto
  next
    fix params' mexpr ef
    assume "M x = Some (params', mexpr)" "MacroSubst params' args mexpr ef"
      "EvalExpr uop bop S E G F (M(x := None)) ef v1 S1"
    with mx that show ?thesis by simp
  qed
  show ?thesis
  proof (cases "Decide F M E (params, body) args")
    case NotTransformable
    with assms(1) mx have "F' = F" "e' = CallOrInvocation x args"
      by (simp_all add: TransformSite_def)
    with assms(4) Eval_deterministic(1)[OF assms(3)] show ?thesis by blast
  next
    case (Transformable st)
    define F2 where "F2 = F(fname \<mapsto> (params, Skip, body))"
    from TransformSite_Transformable[OF mx Transformable, of fname] assms(1)
    have res: "F' = F2" "e' = CallOrInvocation fname args" by (simp_all add: F2_def)
    show ?thesis
    proof (cases st)
      case ObjectLikeToNullaryFunction
      from Decide_ObjectLikeToNullaryFunction[OF Transformable[unfolded ObjectLikeToNullaryFunction]]
      have c: "params = []" "args = []" "\<not> ExprHasSideEffects body"
        "ExprNoVarsInEnvironment body E" by simp_all
      from orig(1)[unfolded c(1)] have ef: "ef = body" by (rule MacroSubst_nil_E) simp
      from not_ExprHasSideEffects_S_Equal[OF c(3) orig(2)[unfolded ef]] have s1: "S1 = S" .
      from not_ExprHasSideEffects_no_locals[OF c(3,4) orig(2)[unfolded ef s1]]
      have "EvalExpr uop bop S Map.empty G F (M(x := None)) body v1 S" .
      from not_ExprHasSideEffects_tables[OF c(3) this]
      have o: "EvalExpr uop bop S Map.empty G F2 M body v1 S" .
      have f: "F2 fname = Some ([], Skip, body)" by (simp add: F2_def c(1))
      from assms(4)[unfolded res c(2)] generated_nullary_call[where F=F2 and fname=fname, OF assms(2) f]
      obtain S4 where t: "EvalExpr uop bop S Map.empty G F2 M body v2 S4" "S2 = S4 |` dom S"
        by blast
      from Eval_deterministic(1)[OF o] t(1) have "v1 = v2" "S4 = S" by blast+
      with t(2) s1 show ?thesis by (simp add: restrict_dom_self)
    next
      case FunctionLikeToFunction
      from Decide_FunctionLikeToFunction[OF Transformable[unfolded FunctionLikeToFunction]]
      obtain p e y where c: "params = [p]" "args = [e]" "body = Var y" "y \<notin> dom E"
        "\<not> ExprHasSideEffects e" by blast
      from orig(1)[unfolded c(1,2)] have sub: "MSub p e body ef"
        by (rule MacroSubst_one_parameter)
      have b: "\<not> ExprHasSideEffects body" "ExprNoVarsInEnvironment body E"
        using c(3,4) by simp_all
      from not_ExprHasSideEffects_MSub[OF sub b(1) c(5)] have u: "\<not> ExprHasSideEffects ef" .
      from not_ExprHasSideEffects_S_Equal[OF u orig(2)] have s1: "S1 = S" .
      from not_ExprHasSideEffects_tables[OF u orig(2)[unfolded s1]]
      have o: "EvalExpr uop bop S E G F2 M ef v1 S" .
      have f: "F2 fname = Some ([p], Skip, body)" by (simp add: F2_def c(1))
      from assms(4)[unfolded res c(2)] generated_unary_call[where F=F2 and fname=fname, OF assms(2) f]
      obtain va T1 S4 where t: "EvalExpr uop bop S E G F2 M e va T1" "1 \<notin> dom T1"
        "EvalExpr uop bop (T1(1 \<mapsto> va)) [p \<mapsto> 1] G F2 M body v2 S4" "S2 = S4 |` dom S"
        by blast
      from not_ExprHasSideEffects_S_Equal[OF c(5) t(1)] have t1: "T1 = S" .
      from not_ExprHasSideEffects_S_Equal[OF b(1) t(3)] t1 have s4: "S4 = S(1 \<mapsto> va)" by simp
      from t(2) t1 have fresh: "1 \<notin> dom S" by simp
      from call_by_name_value[OF t(1)[unfolded t1] c(5) fresh sub b o t(3)[unfolded t1]]
      have "v1 = v2" .
      moreover from fresh have "(S ++ [1 \<mapsto> va]) |` dom S = S"
        by (intro restrict_add_disjoint) simp
      with t(4) s4 s1 have "S1 = S2" by simp
      ultimately show ?thesis by simp
    qed
  qed
qed

text \<open>
  At a site where \<open>x\<close> is a local variable holding \<open>10\<close>, the invocation \<open>ID(x)\<close> of
  \<open>#define ID(a) a\<close> is rewritten into the call \<open>f0(x)\<close>.  Both evaluate to \<open>10\<close> and
  leave the store as it was; the call evaluates to no other value.
\<close>

lemma ex_original_invocation:
  "EvalExpr neg_op plus_op [2 \<mapsto> 10] [''x'' \<mapsto> 2] Map.empty F
     [''ID'' \<mapsto> ([''a''], Var ''a'')] (CallOrInvocation ''ID'' [Var ''x'']) 10 [2 \<mapsto> 10]"
proof -
  let ?M = "[''ID'' \<mapsto> ([''a''], Var ''a'')] :: ('a, 'b) macro_table"
  have "EvalExpr neg_op plus_op [2 \<mapsto> 10] [''x'' \<mapsto> 2] Map.empty F (?M(''ID'' := None))
      (Var ''x'') 10 [2 \<mapsto> 10]"
    by (rule E_LocalVar[where l=2]) simp_all
  then show ?thesis
    by (rule E_MacroInvocation_unary[where p="''a''" and mexpr="Var ''a''", rotated 2])
      (simp_all add: MS_Var_Replace)
qed

lemma ex_transformed_call:
  "EvalExpr neg_op plus_op [2 \<mapsto> 10] [''x'' \<mapsto> 2] Map.empty
     [''f0'' \<mapsto> ([''a''], Skip, Var ''a'')] [''ID'' \<mapsto> ([''a''], Var ''a'')]
     (CallOrInvocation ''f0'' [Var ''x'']) 10 [2 \<mapsto> 10]"
proof -
  let ?F = "[''f0'' \<mapsto> ([''a''], Skip, Var ''a'')] :: ('a, 'b) function_table"
  let ?M = "[''ID'' \<mapsto> ([''a''], Var ''a'')] :: ('a, 'b) macro_table"
  let ?S = "[2 \<mapsto> 10] :: store"
  have arg: "EvalExpr neg_op plus_op ?S [''x'' \<mapsto> 2] Map.empty ?F ?M (Var ''x'') 10 ?S"
    by (rule E_LocalVar[where l=2]) simp_all
  have body: "EvalExpr neg_op plus_op (?S(1 \<mapsto> 10)) [''a'' \<mapsto> 1] Map.empty ?F ?M
      (Var ''a'') 10 (?S(1 \<mapsto> 10))"
    by (rule E_LocalVar[where l=1]) simp_all
  have "EvalExpr neg_op plus_op ?S [''x'' \<mapsto> 2] Map.empty ?F ?M
      (CallOrInvocation ''f0'' [Var ''x'']) 10 ((?S(1 \<mapsto> 10)) |` dom ?S)"
    by (rule E_FunctionCall_unary[where p="''a''" and fstmt=Skip and fexpr="Var ''a''",
          OF _ _ arg _ E_Skip body]) simp_all
  moreover have "(?S(1 \<mapsto> 10)) |` dom ?S = ?S"
    by (rule ext) (simp add: restrict_map_def)
  ultimately show ?thesis by simp
qed

theorem transformed_site_equivalent_witness:
  "TransformSite Map.empty [''ID'' \<mapsto> ([''a''], Var ''a'')] [''x'' \<mapsto> 2] ''f0'' ''ID''
     [Var ''x'' :: (unit, unit) expr]
     = Some ([''f0'' \<mapsto> ([''a''], Skip, Var ''a'')], CallOrInvocation ''f0'' [Var ''x'']) \<and>
   EvalExpr neg_op plus_op [2 \<mapsto> 10] [''x'' \<mapsto> 2] Map.empty Map.empty
     [''ID'' \<mapsto> ([''a''], Var ''a'')] (CallOrInvocation ''ID'' [Var ''x'']) 10 [2 \<mapsto> 10] \<and>
   EvalExpr neg_op plus_op [2 \<mapsto> 10] [''x'' \<mapsto> 2] Map.empty
     [''f0'' \<mapsto> ([''a''], Skip, Var ''a'')] [''ID'' \<mapsto> ([''a''], Var ''a'')]
     (CallOrInvocation ''f0'' [Var ''x'']) 10 [2 \<mapsto> 10] \<and>
   \<not> EvalExpr neg_op plus_op [2 \<mapsto> 10] [''x'' \<mapsto> 2] Map.empty
     [''f0'' \<mapsto> ([''a''], Skip, Var ''a'')] [''ID'' \<mapsto> ([''a''], Var ''a'')]
     (CallOrInvocation ''f0'' [Var ''x'']) 2 [2 \<mapsto> 10]"
proof -
  let ?M = "[''ID'' \<mapsto> ([''a''], Var ''a'')] :: (unit, unit) macro_table"
  let ?F = "Map.empty :: (unit, unit) function_table"
  let ?F' = "[''f0'' \<mapsto> ([''a''], Skip, Var ''a'')] :: (unit, unit) function_table"
  have site: "TransformSite ?F ?M [''x'' \<mapsto> 2] ''f0'' ''ID'' [Var ''x'']
      = Some (?F', CallOrInvocation ''f0'' [Var ''x''])"
    by (simp add: TransformSite_def Decide_def)
  have fresh: "''f0'' \<notin> dom ?M" by simp
  have "(10::int) = 2 \<and> [2 \<mapsto> 10] = ([2 \<mapsto> 10] :: store)"
    if "EvalExpr neg_op plus_op [2 \<mapsto> 10] [''x'' \<mapsto> 2] Map.empty ?F' ?M
      (CallOrInvocation ''f0'' [Var ''x'']) 2 [2 \<mapsto> 10]"
    by (rule transformed_site_equivalent[OF site fresh ex_original_invocation that])
  then have "\<not> EvalExpr neg_op plus_op [2 \<mapsto> 10] [''x'' \<mapsto> 2] Map.empty ?F' ?M
      (CallOrInvocation ''f0'' [Var ''x'']) 2 [2 \<mapsto> 10]"
    by auto
  with site ex_original_invocation[of ?F] ex_transformed_call show ?thesis by blast
qed

end
